theory Spec2Isabelle
  imports Main "HOL-Library.Multiset"
begin

section \<open>JavaScript values used by the appointment dashboard\<close>

text \<open>
  The dashboard is a React component (\<open>AppointmentManagementView\<close>) over an array of
  appointment objects, an API client (\<open>appointmentService.js\<close>) and an in-memory mock
  of the store (\<open>appointmentServiceMock.js\<close>). The component's derived values
  (\<open>stats\<close>, \<open>filteredAppointments\<close>, \<open>calendarDays\<close>) are pure functions of its
  state, and its handlers are state transformers; they are embedded as such.

  A JavaScript number that may be \<open>NaN\<close> is an \<open>int option\<close> with \<open>None\<close> for \<open>NaN\<close>.
  Strings are lists of characters; the text handled here (names, dates, times) is taken
  to be ASCII, so that \<open>toLowerCase\<close> only moves \<open>A..Z\<close> to \<open>a..z\<close>.
\<close>

type_synonym jsnum = "int option"

definition toLowerChar :: "char \<Rightarrow> char" where
  "toLowerChar c =
     (let n = (of_char c :: nat) in if 65 \<le> n \<and> n \<le> 90 then char_of (n + 32) else c)"

definition toLowerCase :: "string \<Rightarrow> string" where
  "toLowerCase s = map toLowerChar s"

text \<open>\<open>s.includes(q)\<close>: \<open>q\<close> occurs in \<open>s\<close> as a contiguous run.\<close>

fun startsWith :: "string \<Rightarrow> string \<Rightarrow> bool" where
  "startsWith s [] = True"
| "startsWith [] (q # qs) = False"
| "startsWith (c # s) (q # qs) = (c = q \<and> startsWith s qs)"

fun includes' :: "string \<Rightarrow> string \<Rightarrow> bool" where
  "includes' [] q = (q = [])"
| "includes' (c # s) q = (startsWith (c # s) q \<or> includes' s q)"

text \<open>\<open>s.trim()\<close> removes white space at both ends (the white space of the 8-bit range).\<close>

definition isWhiteSpace :: "char \<Rightarrow> bool" where
  "isWhiteSpace c = ((of_char c :: nat) \<in> {9, 10, 11, 12, 13, 32, 160})"

definition trim :: "string \<Rightarrow> string" where
  "trim s = rev (dropWhile isWhiteSpace (rev (dropWhile isWhiteSpace s)))"

text \<open>
  \<open>a.localeCompare(b)\<close> compares by the collation of the host's locale, not by
  character codes. It is modelled after the root collation, which English uses, on ASCII
  text: control characters are ignored; the other characters are ordered white space,
  punctuation, symbols, the dollar sign, digits, letters, in the order of
  \<open>collationOrder\<close> (so a colon comes before every digit); a letter and its capital
  have the same place, and between strings that differ in nothing else the one with the
  small letter at the first difference comes first. The strings are compared by the
  places of their characters, the first difference deciding and a proper prefix coming
  first; letter case breaks a tie. Characters beyond ASCII are not modelled (they are put
  after the letters). Locales differ on letters; digits and the colon, of which time
  strings consist, are ordered as here.
\<close>

definition collationOrder :: "nat list" where
  "collationOrder =
     [9, 10, 11, 12, 13, 32,
      95, 45, 44, 59, 58, 33, 63, 46, 39, 34, 40, 41, 91, 93, 123, 125, 64, 42, 47, 92, 38, 35, 37,
      96, 94, 43, 60, 61, 62, 124, 126,
      36,
      48, 49, 50, 51, 52, 53, 54, 55, 56, 57]"

fun indexOf :: "nat \<Rightarrow> nat list \<Rightarrow> nat" where
  "indexOf n [] = 0"
| "indexOf n (x # xs) = (if x = n then 0 else Suc (indexOf n xs))"

definition ignorable :: "char \<Rightarrow> bool" where
  "ignorable c = (let n = (of_char c :: nat) in n < 9 \<or> (14 \<le> n \<and> n \<le> 31) \<or> n = 127)"

definition primaryWeight :: "char \<Rightarrow> nat" where
  "primaryWeight c =
     (let n = (of_char (toLowerChar c) :: nat)
      in if 97 \<le> n \<and> n \<le> 122 then 48 + (n - 97)
         else if 128 \<le> n then 74 + n
         else indexOf n collationOrder)"

definition caseWeight :: "char \<Rightarrow> nat" where
  "caseWeight c = (let n = (of_char c :: nat) in if 65 \<le> n \<and> n \<le> 90 then 1 else 0)"

fun compareLists :: "nat list \<Rightarrow> nat list \<Rightarrow> int" where
  "compareLists [] [] = 0"
| "compareLists [] (y # ys) = -1"
| "compareLists (x # xs) [] = 1"
| "compareLists (x # xs) (y # ys) =
     (if x < y then -1 else if y < x then 1 else compareLists xs ys)"

definition localeCompare :: "string \<Rightarrow> string \<Rightarrow> int" where
  "localeCompare s t =
     (let ks = filter (\<lambda>c. \<not> ignorable c) s;
          kt = filter (\<lambda>c. \<not> ignorable c) t;
          primary = compareLists (map primaryWeight ks) (map primaryWeight kt)
      in if primary \<noteq> 0 then primary
         else compareLists (map caseWeight ks) (map caseWeight kt))"

section \<open>Dates\<close>

text \<open>
  The day arithmetic of the \<open>Date\<close> object, after the ECMAScript definitions: the day
  number of the first day of a year, leap years, the first day of each month within its
  year, and \<open>MakeDay\<close>, which accepts a month outside \<open>0..11\<close> and a day outside the month
  and carries them over.
\<close>

definition msPerDay :: int where
  "msPerDay = 86400000"

definition DaysInYear :: "int \<Rightarrow> int" where
  "DaysInYear y =
     (if y mod 4 \<noteq> 0 then 365 else if y mod 100 \<noteq> 0 then 366
      else if y mod 400 \<noteq> 0 then 365 else 366)"

definition InLeapYear :: "int \<Rightarrow> bool" where
  "InLeapYear y = (DaysInYear y = 366)"

definition DayFromYear :: "int \<Rightarrow> int" where
  "DayFromYear y =
     365 * (y - 1970) + (y - 1969) div 4 - (y - 1901) div 100 + (y - 1601) div 400"

text \<open>Day within the year on which month \<open>m\<close> (0 = January) begins.\<close>

definition monthStart :: "bool \<Rightarrow> int \<Rightarrow> int" where
  "monthStart leap m =
     (let l = (if leap then 1 else 0) in
      if m = 0 then 0 else if m = 1 then 31 else if m = 2 then 59 + l
      else if m = 3 then 90 + l else if m = 4 then 120 + l else if m = 5 then 151 + l
      else if m = 6 then 181 + l else if m = 7 then 212 + l else if m = 8 then 243 + l
      else if m = 9 then 273 + l else if m = 10 then 304 + l else 334 + l)"

definition MakeDay :: "int \<Rightarrow> int \<Rightarrow> int \<Rightarrow> int" where
  "MakeDay year month dt =
     (let ym = year + month div 12; mn = month mod 12
      in DayFromYear ym + monthStart (InLeapYear ym) mn + dt - 1)"

text \<open>
  \<open>new Date(s).getTime()\<close> for a date string. The application stores dates in the ISO
  date-only form \<open>YYYY-MM-DD\<close>, which is read as midnight UTC of that day; a day number
  up to 31 is accepted in any month and carried over by \<open>MakeDay\<close>. What an engine makes
  of any other string is its own choice; here it is \<open>NaN\<close>.
\<close>

definition digitVal :: "char \<Rightarrow> nat option" where
  "digitVal c =
     (let n = (of_char c :: nat) in if 48 \<le> n \<and> n \<le> 57 then Some (n - 48) else None)"

fun parseDigitsAcc :: "nat \<Rightarrow> string \<Rightarrow> nat option" where
  "parseDigitsAcc acc [] = Some acc"
| "parseDigitsAcc acc (c # cs) =
     (case digitVal c of None \<Rightarrow> None | Some d \<Rightarrow> parseDigitsAcc (10 * acc + d) cs)"

definition parseDigits :: "string \<Rightarrow> nat option" where
  "parseDigits s = (if s = [] then None else parseDigitsAcc 0 s)"

definition parseIsoDate :: "string \<Rightarrow> (int \<times> int \<times> int) option" where
  "parseIsoDate s =
     (if length s = 10 \<and> s ! 4 = CHR ''-'' \<and> s ! 7 = CHR ''-'' then
        (case (parseDigits (take 4 s), parseDigits (take 2 (drop 5 s)), parseDigits (drop 8 s)) of
           (Some y, Some m, Some d) \<Rightarrow>
             if 1 \<le> m \<and> m \<le> 12 \<and> 1 \<le> d \<and> d \<le> 31 then Some (int y, int m, int d) else None
         | _ \<Rightarrow> None)
      else None)"

definition dateGetTime :: "string \<Rightarrow> jsnum" where
  "dateGetTime s =
     (case parseIsoDate s of
        None \<Rightarrow> None
      | Some (y, m, d) \<Rightarrow> Some (msPerDay * MakeDay y (m - 1) d))"

text \<open>\<open>compareDates\<close> of \<open>appointmentService.js\<close>: the difference of the two times.\<close>

definition compareDates :: "string \<Rightarrow> string \<Rightarrow> jsnum" where
  "compareDates date1 date2 =
     (case (dateGetTime date1, dateGetTime date2) of
        (Some t1, Some t2) \<Rightarrow> Some (t1 - t2)
      | _ \<Rightarrow> None)"


definition ge0 :: "jsnum \<Rightarrow> bool" where
  "ge0 n = (case n of None \<Rightarrow> False | Some v \<Rightarrow> v \<ge> 0)"

definition lt0 :: "jsnum \<Rightarrow> bool" where
  "lt0 n = (case n of None \<Rightarrow> False | Some v \<Rightarrow> v < 0)"

section \<open>Appointments and the component state\<close>

text \<open>
  The appointment object the component works on (the result of the transformation of a
  fetched record). The identifier is a number with the API client and a string with the
  mock store, hence a type parameter.
\<close>

record 'i appointment =
  id' :: 'i
  name :: string
  initials :: string
  date :: string
  time :: string
  duration :: int
  doctorName :: string
  status :: string
  mode :: string
  reason :: string
  note' :: string
  phone :: string
  email :: string

text \<open>
  The state of \<open>AppointmentManagementView\<close>: one field per \<open>useState\<close>. \<open>currentMonth\<close> is
  a \<open>Date\<close>, kept as its day number (the time of day plays no part in what follows).
  Two more fields record what the handlers emit, oldest first: \<open>alerts\<close> the calls of
  \<open>alert\<close>, \<open>console\<close> the calls of \<open>console.error\<close> (label and error message).
\<close>

record 'i view =
  appointments :: "'i appointment list"
  selectedDate :: "string option"
  activeTab :: string
  isLoading :: bool
  error :: "string option"
  searchQuery :: string
  statusFilter :: string
  doctorFilter :: string
  currentMonth :: int
  alerts :: "string list"
  console :: "(string \<times> string) list"

section \<open>Statistics\<close>



section \<open>The visible list\<close>

text \<open>
  \<open>Array.prototype.sort\<close> with a comparator: a stable sort; a comparator result of
  \<open>NaN\<close> counts as zero. It is modelled by stable insertion, which is the result of
  every stable sort when the comparator is a consistent order.
\<close>

definition comparatorValue :: "jsnum \<Rightarrow> int" where
  "comparatorValue v = (case v of None \<Rightarrow> 0 | Some n \<Rightarrow> n)"

fun insertSorted :: "('a \<Rightarrow> 'a \<Rightarrow> jsnum) \<Rightarrow> 'a \<Rightarrow> 'a list \<Rightarrow> 'a list" where
  "insertSorted cmp x [] = [x]"
| "insertSorted cmp x (y # ys) =
     (if comparatorValue (cmp x y) \<le> 0 then x # y # ys else y # insertSorted cmp x ys)"

definition sortBy :: "('a \<Rightarrow> 'a \<Rightarrow> jsnum) \<Rightarrow> 'a list \<Rightarrow> 'a list" where
  "sortBy cmp xs = foldr (insertSorted cmp) xs []"

text \<open>The comparator of \<open>filteredAppointments\<close>: by date, then by time string.\<close>

definition byDateTime :: "'i appointment \<Rightarrow> 'i appointment \<Rightarrow> jsnum" where
  "byDateTime a b =
     (let dateCompare = compareDates (date a) (date b)
      in if dateCompare \<noteq> Some 0 then dateCompare
         else Some (localeCompare (time a) (time b)))"

text \<open>A value used as a condition: \<open>null\<close> and the empty string are false.\<close>

definition truthy :: "string option \<Rightarrow> bool" where
  "truthy s = (case s of None \<Rightarrow> False | Some d \<Rightarrow> d \<noteq> [])"

definition filteredAppointments :: "'i view \<Rightarrow> string \<Rightarrow> 'i appointment list" where
  "filteredAppointments v today =
     (let filtered = appointments v;
          filtered =
            (if activeTab v = ''Today'' then
               filter (\<lambda>apt. date apt = today) filtered
             else if activeTab v = ''Upcoming'' then
               filter (\<lambda>apt. ge0 (compareDates (date apt) today)) filtered
             else if activeTab v = ''Past'' then
               filter (\<lambda>apt. lt0 (compareDates (date apt) today)) filtered
             else filtered);
          filtered =
            (if truthy (selectedDate v) then
               filter (\<lambda>apt. Some (date apt) = selectedDate v) filtered
             else filtered);
          filtered =
            (if trim (searchQuery v) \<noteq> [] then
               (let query = toLowerCase (searchQuery v)
                in filter (\<lambda>apt. includes' (toLowerCase (name apt)) query \<or>
                                 includes' (toLowerCase (doctorName apt)) query \<or>
                                 includes' (toLowerCase (reason apt)) query) filtered)
             else filtered);
          filtered =
            (if statusFilter v \<noteq> ''All Status'' then
               filter (\<lambda>apt. status apt = statusFilter v) filtered
             else filtered);
          filtered =
            (if doctorFilter v \<noteq> ''All Doctors'' then
               filter (\<lambda>apt. doctorName apt = doctorFilter v) filtered
             else filtered)
      in sortBy byDateTime filtered)"

text \<open>The sample data declared in the component (\<open>MOCK_APPOINTMENTS\<close>).\<close>

definition MOCK_APPOINTMENTS :: "string appointment list" where
  "MOCK_APPOINTMENTS =
     [ \<lparr> id' = ''apt001'', name = ''Sarah Johnson'', initials = ''SJ'', date = ''2025-12-15'',
         time = ''09:00'', duration = 30, doctorName = ''Dr. Michael Chen'',
         status = ''Confirmed'', mode = ''In-Person'', reason = ''Diabetes Management Review'',
         note' = ''Patient needs prescription refill.'', phone = ''+1 (555) 123-4567'',
         email = ''sarah.j@email.com'' \<rparr>,
       \<lparr> id' = ''apt002'', name = ''Robert Brown'', initials = ''RB'', date = ''2025-12-15'',
         time = ''14:00'', duration = 45, doctorName = ''Dr. Emily White'',
         status = ''Confirmed'', mode = ''Video Call'', reason = ''Follow-up Consultation'',
         note' = ''Review lab results from previous visit.'', phone = ''+1 (555) 234-5678'',
         email = ''rbrown@email.com'' \<rparr>,
       \<lparr> id' = ''apt003'', name = ''Emma Wilson'', initials = ''EW'', date = ''2025-12-18'',
         time = ''10:30'', duration = 60, doctorName = ''Dr. Michael Chen'',
         status = ''Scheduled'', mode = ''In-Person'', reason = ''Annual Physical Examination'',
         note' = ''Fasting required before appointment.'', phone = ''+1 (555) 345-6789'',
         email = ''emma.w@email.com'' \<rparr>,
       \<lparr> id' = ''apt004'', name = ''James Taylor'', initials = ''JT'', date = ''2025-12-10'',
         time = ''15:30'', duration = 30, doctorName = ''Dr. Sarah Johnson'',
         status = ''Completed'', mode = ''Video Call'', reason = ''Mental Health Check-in'',
         note' = ''Patient doing well on current treatment plan.'', phone = ''+1 (555) 456-7890'',
         email = ''jtaylor@email.com'' \<rparr>,
       \<lparr> id' = ''apt005'', name = ''Lisa Anderson'', initials = ''LA'', date = ''2025-12-08'',
         time = ''11:00'', duration = 30, doctorName = ''Dr. Emily White'',
         status = ''Cancelled'', mode = ''In-Person'', reason = ''Routine Check-up'',
         note' = ''Patient requested to reschedule.'', phone = ''+1 (555) 567-8901'',
         email = ''lisa.a@email.com'' \<rparr> ]"

section \<open>Fetched records and the status update\<close>

text \<open>
  An error object (\<open>new Error(message)\<close>) and a settled promise: what \<open>await\<close> yields,
  a value or a thrown error.
\<close>

datatype jserror = Error string

datatype 'a promise = Fulfilled 'a | Rejected jserror

text \<open>
  A record as the API client returns it. The fields the component reads through
  \<open>||\<close> may be missing; the patient's name is always there (the component calls
  \<open>split\<close> on it).
\<close>

record 'i fetched =
  id_w :: 'i
  patient_name :: string
  patient_initials :: "string option"
  appointment_date :: string
  appointment_time :: string
  duration_w :: int
  doctor_name :: string
  status_w :: string
  mode_w :: string
  reason_w :: "string option"
  notes_w :: "string option"
  phone_w :: "string option"
  email_w :: "string option"

text \<open>\<open>s.split(c)\<close> for a one-character separator.\<close>

fun split :: "char \<Rightarrow> string \<Rightarrow> string list" where
  "split c [] = [[]]"
| "split c (x # xs) =
     (if x = c then [] # split c xs
      else (case split c xs of [] \<Rightarrow> [[x]] | w # ws \<Rightarrow> (x # w) # ws))"

text \<open>\<open>a || b\<close> on strings that may be missing.\<close>

definition orElse :: "string option \<Rightarrow> string \<Rightarrow> string" where
  "orElse a b = (if truthy a then the a else b)"

text \<open>
  The transformation applied to every fetched record (the same in \<open>fetchData\<close> and in
  the failure path of \<open>handleStatusUpdate\<close>). \<open>n[0]\<close> of an empty part is
  \<open>undefined\<close>, which \<open>join\<close> prints as nothing.
\<close>

definition transformAppointment :: "'i fetched \<Rightarrow> 'i appointment" where
  "transformAppointment apt =
     \<lparr> id' = id_w apt,
       name = patient_name apt,
       initials = orElse (patient_initials apt)
                    (concat (map (take 1) (split CHR '' '' (patient_name apt)))),
       date = appointment_date apt,
       time = appointment_time apt,
       duration = duration_w apt,
       doctorName = doctor_name apt,
       status = status_w apt,
       mode = mode_w apt,
       reason = orElse (reason_w apt) [],
       note' = orElse (notes_w apt) [],
       phone = orElse (phone_w apt) [],
       email = orElse (email_w apt) [] \<rparr>"

text \<open>
  \<open>handleStatusUpdate\<close>. The two remote calls are made through the API client; what
  they settle to is given: \<open>updateResult\<close> for \<open>updateAppointmentStatus\<close> and
  \<open>fetchResult\<close> for the \<open>getAppointments\<close> of the failure path (read only there).
  The result is the new state and what the promise returned to the caller settles to.
\<close>

definition handleStatusUpdate ::
  "'i view \<Rightarrow> 'i \<Rightarrow> string \<Rightarrow> 'r promise \<Rightarrow> 'i fetched list promise \<Rightarrow> 'i view \<times> unit promise"
where
  "handleStatusUpdate v appointmentId newStatus updateResult fetchResult =
     (let v1 = v\<lparr> appointments :=
                   map (\<lambda>apt. if id' apt = appointmentId then apt\<lparr> status := newStatus \<rparr> else apt)
                       (appointments v) \<rparr>
      in case updateResult of
           Fulfilled r \<Rightarrow> (v1, Fulfilled ())
         | Rejected (Error msg) \<Rightarrow>
             (let v2 = v1\<lparr> console := console v1 @ [(''Failed to update appointment:'', msg)] \<rparr>
              in case fetchResult of
                   Rejected err \<Rightarrow> (v2, Rejected err)
                 | Fulfilled data \<Rightarrow>
                     (let transformedData = map transformAppointment data
                      in (v2\<lparr> appointments := transformedData,
                              alerts := alerts v2 @ [''Failed to update appointment status''] \<rparr>,
                          Fulfilled ()))))"

text \<open>\<open>fetchData\<close>, the load on mount, given what \<open>getAppointments\<close> settles to.\<close>

definition fetchData :: "'i view \<Rightarrow> 'i fetched list promise \<Rightarrow> 'i view" where
  "fetchData v fetchResult =
     (let v1 = v\<lparr> isLoading := True, error := None \<rparr>;
          v2 = (case fetchResult of
                  Fulfilled data \<Rightarrow> v1\<lparr> appointments := map transformAppointment data \<rparr>
                | Rejected (Error msg) \<Rightarrow>
                    v1\<lparr> console := console v1 @ [(''Failed to fetch appointments:'', msg)],
                        error := Some ''Failed to load appointments. Please check if the backend server is running.'' \<rparr>)
      in v2\<lparr> isLoading := False \<rparr>)"

section \<open>Selection handlers\<close>

definition handleDateSelect :: "'i view \<Rightarrow> string \<Rightarrow> 'i view" where
  "handleDateSelect v dateStr =
     v\<lparr> selectedDate := (if Some dateStr = selectedDate v then None else Some dateStr) \<rparr>"

definition handleTabChange :: "'i view \<Rightarrow> string \<Rightarrow> 'i view" where
  "handleTabChange v tab = v\<lparr> activeTab := tab, selectedDate := None \<rparr>"

section \<open>The mock store\<close>

text \<open>
  \<open>appointmentServiceMock.js\<close> keeps the appointments in a module-level array
  \<open>APPOINTMENTS\<close> and changes it in place. The array is the state here: an operation
  takes the store and returns what its promise settles to together with the store
  afterwards.
\<close>

record mock_appointment =
  id_m :: string
  name_m :: string
  date_m :: string
  time_m :: string
  duration_m :: int
  doctorName_m :: string
  status_m :: string
  mode_m :: string

definition APPOINTMENTS :: "mock_appointment list" where
  "APPOINTMENTS =
     [ \<lparr> id_m = ''apt001'', name_m = ''John Smith'', date_m = ''2025-12-10'', time_m = ''09:00'',
         duration_m = 30, doctorName_m = ''Dr. Sarah Johnson'', status_m = ''Confirmed'', mode_m = ''In-Person'' \<rparr>,
       \<lparr> id_m = ''apt002'', name_m = ''Emma Wilson'', date_m = ''2025-12-15'', time_m = ''10:30'',
         duration_m = 45, doctorName_m = ''Dr. Michael Chen'', status_m = ''Scheduled'', mode_m = ''Video'' \<rparr>,
       \<lparr> id_m = ''apt003'', name_m = ''Robert Brown'', date_m = ''2025-12-15'', time_m = ''14:00'',
         duration_m = 30, doctorName_m = ''Dr. Sarah Johnson'', status_m = ''Confirmed'', mode_m = ''In-Person'' \<rparr>,
       \<lparr> id_m = ''apt004'', name_m = ''Lisa Anderson'', date_m = ''2025-12-20'', time_m = ''11:00'',
         duration_m = 60, doctorName_m = ''Dr. Emily White'', status_m = ''Upcoming'', mode_m = ''Video'' \<rparr>,
       \<lparr> id_m = ''apt005'', name_m = ''James Taylor'', date_m = ''2025-12-08'', time_m = ''15:30'',
         duration_m = 30, doctorName_m = ''Dr. Michael Chen'', status_m = ''Confirmed'', mode_m = ''In-Person'' \<rparr>,
       \<lparr> id_m = ''apt006'', name_m = ''Maria Garcia'', date_m = ''2025-12-18'', time_m = ''09:30'',
         duration_m = 45, doctorName_m = ''Dr. Sarah Johnson'', status_m = ''Upcoming'', mode_m = ''Video'' \<rparr>,
       \<lparr> id_m = ''apt007'', name_m = ''David Martinez'', date_m = ''2025-12-05'', time_m = ''13:00'',
         duration_m = 30, doctorName_m = ''Dr. Emily White'', status_m = ''Cancelled'', mode_m = ''In-Person'' \<rparr>,
       \<lparr> id_m = ''apt008'', name_m = ''Jennifer Lee'', date_m = ''2025-12-22'', time_m = ''16:00'',
         duration_m = 30, doctorName_m = ''Dr. Michael Chen'', status_m = ''Scheduled'', mode_m = ''In-Person'' \<rparr>,
       \<lparr> id_m = ''apt009'', name_m = ''Christopher Davis'', date_m = ''2025-12-15'', time_m = ''11:30'',
         duration_m = 45, doctorName_m = ''Dr. Emily White'', status_m = ''Confirmed'', mode_m = ''Video'' \<rparr>,
       \<lparr> id_m = ''apt010'', name_m = ''Patricia Moore'', date_m = ''2025-12-03'', time_m = ''10:00'',
         duration_m = 60, doctorName_m = ''Dr. Sarah Johnson'', status_m = ''Confirmed'', mode_m = ''In-Person'' \<rparr>,
       \<lparr> id_m = ''apt011'', name_m = ''Michael Johnson'', date_m = ''2025-12-25'', time_m = ''14:30'',
         duration_m = 30, doctorName_m = ''Dr. Michael Chen'', status_m = ''Upcoming'', mode_m = ''Video'' \<rparr>,
       \<lparr> id_m = ''apt012'', name_m = ''Sarah Thompson'', date_m = ''2025-12-12'', time_m = ''08:30'',
         duration_m = 45, doctorName_m = ''Dr. Emily White'', status_m = ''Cancelled'', mode_m = ''In-Person'' \<rparr> ]"

text \<open>Apply \<open>f\<close> to the first element that satisfies \<open>p\<close> (the object \<open>find\<close> returned).\<close>

fun updateFirst :: "('a \<Rightarrow> bool) \<Rightarrow> ('a \<Rightarrow> 'a) \<Rightarrow> 'a list \<Rightarrow> 'a list" where
  "updateFirst p f [] = []"
| "updateFirst p f (x # xs) = (if p x then f x # xs else x # updateFirst p f xs)"

definition updateAppointmentStatus ::
  "mock_appointment list \<Rightarrow> string \<Rightarrow> string \<Rightarrow> mock_appointment promise \<times> mock_appointment list"
where
  "updateAppointmentStatus store appointmentId newStatus =
     (case find (\<lambda>apt. id_m apt = appointmentId) store of
        None \<Rightarrow>
          (Rejected (Error (''Appointment with id '' @ [CHR 0x27] @ appointmentId @ [CHR 0x27]
                            @ '' not found'')),
           store)
      | Some appointment \<Rightarrow>
          (Fulfilled (appointment\<lparr> status_m := newStatus \<rparr>),
           updateFirst (\<lambda>apt. id_m apt = appointmentId) (\<lambda>apt. apt\<lparr> status_m := newStatus \<rparr>) store))"

definition getAppointments ::
  "mock_appointment list \<Rightarrow> string option \<Rightarrow> string option \<Rightarrow> mock_appointment list"
where
  "getAppointments store date_arg status_arg =
     (let result = store;
          result = (case date_arg of None \<Rightarrow> result
                    | Some d \<Rightarrow> filter (\<lambda>apt. date_m apt = d) result);
          result = (case status_arg of None \<Rightarrow> result
                    | Some st \<Rightarrow> filter (\<lambda>apt. toLowerCase (status_m apt) = toLowerCase st) result)
      in result)"

text \<open>The store after a sequence of status updates, each an identifier and a status.\<close>

fun runUpdates :: "mock_appointment list \<Rightarrow> (string \<times> string) list \<Rightarrow> mock_appointment list" where
  "runUpdates store [] = store"
| "runUpdates store ((appointmentId, newStatus) # us) =
     runUpdates (snd (updateAppointmentStatus store appointmentId newStatus)) us"

section \<open>The calendar\<close>

text \<open>
  Reading a \<open>Date\<close> (a day number): \<open>getFullYear\<close> is the largest year that begins
  on or before the day, found from an estimate that is off by one at most;
  \<open>getMonth\<close> and \<open>getDate\<close> follow from the day within the year, \<open>getDay\<close> from the
  day number (day 0 was a Thursday).
\<close>

definition YearFromDay :: "int \<Rightarrow> int" where
  "YearFromDay d =
     (let y0 = 1970 + (400 * d) div 146097
      in if DayFromYear (y0 + 1) \<le> d then y0 + 1
         else if DayFromYear y0 \<le> d then y0
         else y0 - 1)"

definition DayWithinYear :: "int \<Rightarrow> int" where
  "DayWithinYear d = d - DayFromYear (YearFromDay d)"

definition MonthFromDay :: "int \<Rightarrow> int" where
  "MonthFromDay d =
     (let dw = DayWithinYear d; l = (if InLeapYear (YearFromDay d) then 1 else 0)
      in if dw < 31 then 0 else if dw < 59 + l then 1 else if dw < 90 + l then 2
         else if dw < 120 + l then 3 else if dw < 151 + l then 4 else if dw < 181 + l then 5
         else if dw < 212 + l then 6 else if dw < 243 + l then 7 else if dw < 273 + l then 8
         else if dw < 304 + l then 9 else if dw < 334 + l then 10 else 11)"

definition DateFromDay :: "int \<Rightarrow> int" where
  "DateFromDay d =
     DayWithinYear d - monthStart (InLeapYear (YearFromDay d)) (MonthFromDay d) + 1"

definition WeekDay :: "int \<Rightarrow> int" where
  "WeekDay d = (d + 4) mod 7"

text \<open>\<open>new Date(year, month, day)\<close>: a year from 0 to 99 stands for 1900 + year.\<close>

definition newDate :: "int \<Rightarrow> int \<Rightarrow> int \<Rightarrow> int" where
  "newDate year month dt =
     MakeDay (if 0 \<le> year \<and> year \<le> 99 then 1900 + year else year) month dt"

text \<open>\<open>d.setMonth(m)\<close> keeps the year and the day of the month of \<open>d\<close>.\<close>

definition setMonth :: "int \<Rightarrow> int \<Rightarrow> int" where
  "setMonth d m = MakeDay (YearFromDay d) m (DateFromDay d)"

text \<open>\<open>String(n)\<close> for an integer and \<open>padStart\<close>.\<close>

fun natToString :: "nat \<Rightarrow> string" where
  "natToString n =
     (if n < 10 then [char_of (48 + n)]
      else natToString (n div 10) @ [char_of (48 + n mod 10)])"

declare natToString.simps [simp del]

definition intToString :: "int \<Rightarrow> string" where
  "intToString i = (if i < 0 then CHR ''-'' # natToString (nat (- i)) else natToString (nat i))"

definition padStart :: "nat \<Rightarrow> char \<Rightarrow> string \<Rightarrow> string" where
  "padStart n c s = replicate (n - length s) c @ s"

record 'i day_info =
  day :: int
  dateStr :: string
  hasAppointments :: bool
  appointments_d :: "'i appointment list"

text \<open>\<open>calendarDays\<close>: an empty slot is \<open>None\<close> (\<open>null\<close>).\<close>

definition calendarDays :: "'i view \<Rightarrow> 'i day_info option list" where
  "calendarDays v =
     (let year = YearFromDay (currentMonth v);
          month = MonthFromDay (currentMonth v);
          firstDay = newDate year month 1;
          lastDay = newDate year (month + 1) 0;
          daysInMonth = DateFromDay lastDay;
          startingDayOfWeek = WeekDay firstDay;
          days = replicate (nat startingDayOfWeek) None
      in days @
         map (\<lambda>dy.
                let dateStr = intToString year @ ''-'' @ padStart 2 CHR ''0'' (intToString (month + 1))
                                @ ''-'' @ padStart 2 CHR ''0'' (intToString dy);
                    hasAppointments = list_ex (\<lambda>apt. date apt = dateStr) (appointments v);
                    appointmentsForDay = filter (\<lambda>apt. date apt = dateStr) (appointments v)
                in Some \<lparr> day = dy, dateStr = dateStr, hasAppointments = hasAppointments,
                          appointments_d = appointmentsForDay \<rparr>)
             [1..daysInMonth])"

definition changeMonth :: "'i view \<Rightarrow> int \<Rightarrow> 'i view" where
  "changeMonth v offset =
     v\<lparr> currentMonth := setMonth (currentMonth v) (MonthFromDay (currentMonth v) + offset) \<rparr>"

section \<open>The component as a transition system\<close>

text \<open>
  The state after mounting and the events that change it: the load, the handlers, and
  the three inputs of the filter row.
\<close>

definition initialView :: "int \<Rightarrow> 'i view" where
  "initialView now =
     \<lparr> appointments = [], selectedDate = None, activeTab = ''Upcoming'', isLoading = False,
       error = None, searchQuery = [], statusFilter = ''All Status'',
       doctorFilter = ''All Doctors'', currentMonth = now, alerts = [], console = [] \<rparr>"

datatype 'i event =
    Loaded "'i fetched list promise"
  | DateSelect string
  | TabChange string
  | MonthChange int
  | StatusUpdate 'i string "unit promise" "'i fetched list promise"
  | SearchInput string
  | StatusInput string
  | DoctorInput string

fun step :: "'i view \<Rightarrow> 'i event \<Rightarrow> 'i view" where
  "step v (Loaded r) = fetchData v r"
| "step v (DateSelect d) = handleDateSelect v d"
| "step v (TabChange t) = handleTabChange v t"
| "step v (MonthChange k) = changeMonth v k"
| "step v (StatusUpdate i s u f) = fst (handleStatusUpdate v i s u f)"
| "step v (SearchInput q) = v\<lparr> searchQuery := q \<rparr>"
| "step v (StatusInput sf) = v\<lparr> statusFilter := sf \<rparr>"
| "step v (DoctorInput df) = v\<lparr> doctorFilter := df \<rparr>"

definition isTabChange :: "'i event \<Rightarrow> bool" where
  "isTabChange e = (case e of TabChange t \<Rightarrow> True | _ \<Rightarrow> False)"

section \<open>Notions used in the statements\<close>

text \<open>
  A record is visible when it passes every step of \<open>filteredAppointments\<close> that is
  switched on.
\<close>

definition visible :: "'i view \<Rightarrow> string \<Rightarrow> 'i appointment \<Rightarrow> bool" where
  "visible v today apt =
     ((if activeTab v = ''Today'' then date apt = today
       else if activeTab v = ''Upcoming'' then ge0 (compareDates (date apt) today)
       else if activeTab v = ''Past'' then lt0 (compareDates (date apt) today)
       else True) \<and>
      (if truthy (selectedDate v) then Some (date apt) = selectedDate v else True) \<and>
      (if trim (searchQuery v) \<noteq> [] then
         includes' (toLowerCase (name apt)) (toLowerCase (searchQuery v)) \<or>
         includes' (toLowerCase (doctorName apt)) (toLowerCase (searchQuery v)) \<or>
         includes' (toLowerCase (reason apt)) (toLowerCase (searchQuery v))
       else True) \<and>
      (if statusFilter v \<noteq> ''All Status'' then status apt = statusFilter v else True) \<and>
      (if doctorFilter v \<noteq> ''All Doctors'' then doctorName apt = doctorFilter v else True))"

text \<open>
  The search of the specification: the query occurs, letter case aside, somewhere in the
  patient's name, the doctor's name or the reason.
\<close>

definition occursIn :: "string \<Rightarrow> string \<Rightarrow> bool" where
  "occursIn q s = (\<exists>pre post. toLowerCase s = pre @ toLowerCase q @ post)"

definition matchesQuery :: "string \<Rightarrow> 'i appointment \<Rightarrow> bool" where
  "matchesQuery q apt =
     (occursIn q (name apt) \<or> occursIn q (doctorName apt) \<or> occursIn q (reason apt))"

text \<open>The order of two dates by their times; false when a date cannot be read.\<close>

definition dateBefore :: "string \<Rightarrow> string \<Rightarrow> bool" where
  "dateBefore d1 d2 =
     (case (dateGetTime d1, dateGetTime d2) of (Some t1, Some t2) \<Rightarrow> t1 < t2 | _ \<Rightarrow> False)"

definition dateNotBefore :: "string \<Rightarrow> string \<Rightarrow> bool" where
  "dateNotBefore d1 d2 =
     (case (dateGetTime d1, dateGetTime d2) of (Some t1, Some t2) \<Rightarrow> t2 \<le> t1 | _ \<Rightarrow> False)"


text \<open>The four status values of the specification.\<close>

definition isStatusValue :: "string \<Rightarrow> bool" where
  "isStatusValue s = (s \<in> {''Scheduled'', ''Confirmed'', ''Completed'', ''Cancelled''})"

text \<open>A view on the sample data with every filter switched on, and a fetched list.\<close>

definition sampleView :: "string view" where
  "sampleView =
     \<lparr> appointments = MOCK_APPOINTMENTS, selectedDate = Some ''2025-12-15'',
       activeTab = ''Upcoming'', isLoading = False, error = None, searchQuery = ''SAR'',
       statusFilter = ''Confirmed'', doctorFilter = ''Dr. Michael Chen'',
       currentMonth = 20437, alerts = [], console = [] \<rparr>"

definition sampleFetched :: "string fetched list" where
  "sampleFetched =
     [ \<lparr> id_w = ''apt001'', patient_name = ''Sarah Johnson'', patient_initials = None,
         appointment_date = ''2025-12-15'', appointment_time = ''09:00'', duration_w = 30,
         doctor_name = ''Dr. Michael Chen'', status_w = ''Confirmed'', mode_w = ''In-Person'',
         reason_w = Some ''Diabetes Management Review'', notes_w = None,
         phone_w = Some ''+1 (555) 123-4567'', email_w = None \<rparr> ]"

text \<open>
  The order in which \<open>filteredAppointments\<close> compares two records whose dates can be
  read: by the time of the date, then by the time strings as \<open>localeCompare\<close> orders
  them.
\<close>

definition dateTimeLe :: "'i appointment \<Rightarrow> 'i appointment \<Rightarrow> bool" where
  "dateTimeLe a b =
     (case (dateGetTime (date a), dateGetTime (date b)) of
        (Some t1, Some t2) \<Rightarrow> t1 < t2 \<or> (t1 = t2 \<and> localeCompare (time a) (time b) \<le> 0)
      | _ \<Rightarrow> False)"

text \<open>
  The order of the specification: by date, then by the minutes since midnight that the
  time string stands for: hours and minutes separated by a colon, with or without
  seconds after a second colon (the seconds do not count).
\<close>

definition timeMinutes :: "string \<Rightarrow> nat option" where
  "timeMinutes t =
     (case split CHR '':'' t of
        [h, m] \<Rightarrow>
          (case (parseDigits h, parseDigits m) of
             (Some hh, Some mm) \<Rightarrow> Some (60 * hh + mm)
           | _ \<Rightarrow> None)
      | [h, m, sec] \<Rightarrow>
          (case (parseDigits h, parseDigits m, parseDigits sec) of
             (Some hh, Some mm, Some ss) \<Rightarrow> Some (60 * hh + mm)
           | _ \<Rightarrow> None)
      | _ \<Rightarrow> None)"

definition dateMinutesLe :: "'i appointment \<Rightarrow> 'i appointment \<Rightarrow> bool" where
  "dateMinutesLe a b =
     (case (dateGetTime (date a), dateGetTime (date b), timeMinutes (time a), timeMinutes (time b)) of
        (Some t1, Some t2, Some m1, Some m2) \<Rightarrow> t1 < t2 \<or> (t1 = t2 \<and> m1 \<le> m2)
      | _ \<Rightarrow> False)"

text \<open>
  A time string made of digits and colons only; a time written with two digits for the
  hour and two for the minute; and a clock time, which is the latter with or without two
  digits of seconds after a second colon.
\<close>

definition isTimeText :: "string \<Rightarrow> bool" where
  "isTimeText t = list_all (\<lambda>c. c = CHR '':'' \<or> digitVal c \<noteq> None) t"

definition isHHMM :: "string \<Rightarrow> bool" where
  "isHHMM t =
     (length t = 5 \<and> t ! 2 = CHR '':'' \<and>
      (case (parseDigits (take 2 t), parseDigits (drop 3 t)) of
         (Some hh, Some mm) \<Rightarrow> hh < 24 \<and> mm < 60
       | _ \<Rightarrow> False))"

definition isClockTime :: "string \<Rightarrow> bool" where
  "isClockTime t =
     (isHHMM t \<or>
      (length t = 8 \<and> isHHMM (take 5 t) \<and> t ! 5 = CHR '':'' \<and>
       (case parseDigits (drop 6 t) of Some ss \<Rightarrow> ss < 60 | None \<Rightarrow> False)))"

text \<open>
  Two appointments on the same day, at \<open>9:00\<close> and at \<open>10:00\<close>, under the tab \<open>All\<close>
  with no other filter.
\<close>

definition nineAndTen :: "string view" where
  "nineAndTen =
     \<lparr> appointments = [(MOCK_APPOINTMENTS ! 0)\<lparr> time := ''9:00'' \<rparr>,
                       (MOCK_APPOINTMENTS ! 1)\<lparr> time := ''10:00'' \<rparr>],
       selectedDate = None, activeTab = ''All'', isLoading = False, error = None,
       searchQuery = [], statusFilter = ''All Status'', doctorFilter = ''All Doctors'',
       currentMonth = 20437, alerts = [], console = [] \<rparr>"

text \<open>The sample data under the tab \<open>All\<close> with no other filter.\<close>

definition sampleAll :: "string view" where
  "sampleAll = nineAndTen\<lparr> appointments := MOCK_APPOINTMENTS \<rparr>"

text \<open>
  Two appointments of one day whose times are written with and without seconds; and
  three appointments of which the second has no date.
\<close>

definition withSeconds :: "string view" where
  "withSeconds =
     nineAndTen\<lparr> appointments := [(MOCK_APPOINTMENTS ! 0)\<lparr> time := ''10:00:00'' \<rparr>,
                                   (MOCK_APPOINTMENTS ! 1)\<lparr> time := ''09:30'' \<rparr>] \<rparr>"

definition withoutDate :: "string view" where
  "withoutDate =
     nineAndTen\<lparr> appointments := [MOCK_APPOINTMENTS ! 2,
                                   (MOCK_APPOINTMENTS ! 0)\<lparr> date := [] \<rparr>,
                                   MOCK_APPOINTMENTS ! 4] \<rparr>"

text \<open>
  The calendar's own notions: leap years and the number of days of a month (0 = January),
  as the Gregorian calendar has them.
\<close>

definition isLeapYear :: "int \<Rightarrow> bool" where
  "isLeapYear y = (y mod 4 = 0 \<and> (y mod 100 \<noteq> 0 \<or> y mod 400 = 0))"

definition monthLength :: "int \<Rightarrow> int \<Rightarrow> int" where
  "monthLength y m =
     (if m = 1 then (if isLeapYear y then 29 else 28)
      else if m \<in> {3, 5, 8, 10} then 30
      else 31)"

text \<open>A view whose calendar shows February 2024, and one that shows June 2025.\<close>

definition february2024 :: "string view" where
  "february2024 = sampleAll\<lparr> currentMonth := MakeDay 2024 1 15 \<rparr>"

definition june2025 :: "string view" where
  "june2025 = sampleAll\<lparr> currentMonth := MakeDay 2025 5 30 \<rparr>"

section \<open>Strings and sorting: basic facts\<close>

lemma startsWith_iff: "startsWith s q \<longleftrightarrow> (\<exists>post. s = q @ post)"
  by (induction s q rule: startsWith.induct) auto

lemma includes'_iff: "includes' s q \<longleftrightarrow> (\<exists>pre post. s = pre @ q @ post)"
proof (induction s)
  case Nil
  then show ?case by auto
next
  case (Cons c s)
  show ?case
  proof
    assume "includes' (c # s) q"
    then consider "startsWith (c # s) q" | "includes' s q" by auto
    then show "\<exists>pre post. c # s = pre @ q @ post"
    proof cases
      case 1
      then obtain post where "c # s = q @ post" using startsWith_iff by blast
      then have "c # s = [] @ q @ post" by simp
      then show ?thesis by blast
    next
      case 2
      then obtain pre post where "s = pre @ q @ post" using Cons.IH by blast
      then have "c # s = (c # pre) @ q @ post" by simp
      then show ?thesis by blast
    qed
  next
    assume "\<exists>pre post. c # s = pre @ q @ post"
    then obtain pre post where eq: "c # s = pre @ q @ post" by blast
    show "includes' (c # s) q"
    proof (cases pre)
      case Nil
      then have "startsWith (c # s) q" using eq startsWith_iff by auto
      then show ?thesis by simp
    next
      case (Cons p ps)
      then have "s = ps @ q @ post" using eq by simp
      then have "includes' s q" using Cons.IH by blast
      then show ?thesis by simp
    qed
  qed
qed

lemma includes'_occursIn: "includes' (toLowerCase s) (toLowerCase q) = occursIn q s"
  by (simp add: includes'_iff occursIn_def)

lemma trim_run: "\<exists>pre post. q = pre @ trim q @ post"
proof -
  let ?a = "takeWhile isWhiteSpace q"
  let ?r = "dropWhile isWhiteSpace q"
  have 1: "q = ?a @ ?r" by simp
  have "rev ?r = takeWhile isWhiteSpace (rev ?r) @ dropWhile isWhiteSpace (rev ?r)" by simp
  then have "?r = rev (dropWhile isWhiteSpace (rev ?r)) @ rev (takeWhile isWhiteSpace (rev ?r))"
    by (metis rev_append rev_rev_ident)
  then have "?r = trim q @ rev (takeWhile isWhiteSpace (rev ?r))" by (simp add: trim_def)
  with 1 have "q = ?a @ trim q @ rev (takeWhile isWhiteSpace (rev ?r))" by metis
  then show ?thesis by blast
qed

lemma occursIn_trim:
  assumes "occursIn q s"
  shows "occursIn (trim q) s"
proof -
  obtain pre post where s: "toLowerCase s = pre @ toLowerCase q @ post"
    using assms occursIn_def by blast
  obtain a b where q: "q = a @ trim q @ b" using trim_run by blast
  have "toLowerCase q = toLowerCase a @ toLowerCase (trim q) @ toLowerCase b"
    unfolding toLowerCase_def by (metis q map_append)
  then have "toLowerCase s = (pre @ toLowerCase a) @ toLowerCase (trim q) @ (toLowerCase b @ post)"
    using s by simp
  then show ?thesis unfolding occursIn_def by blast
qed

lemma matchesQuery_trim: "matchesQuery q apt \<Longrightarrow> matchesQuery (trim q) apt"
  unfolding matchesQuery_def using occursIn_trim by blast

lemma mset_insertSorted: "mset (insertSorted cmp x ys) = add_mset x (mset ys)"
  by (induction ys) auto

lemma mset_sortBy: "mset (sortBy cmp xs) = mset xs"
  unfolding sortBy_def by (induction xs) (auto simp: mset_insertSorted)

lemma set_sortBy: "set (sortBy cmp xs) = set xs"
  by (metis mset_sortBy set_mset_mset)

lemma ge0_compareDates: "ge0 (compareDates d1 d2) = dateNotBefore d1 d2"
  by (auto simp: ge0_def compareDates_def dateNotBefore_def split: option.splits)

lemma lt0_compareDates: "lt0 (compareDates d1 d2) = dateBefore d1 d2"
  by (auto simp: lt0_def compareDates_def dateBefore_def split: option.splits)


lemma if_filter: "(if c then filter P xs else xs) = filter (\<lambda>x. if c then P x else True) xs"
  by simp

lemma if3_filter:
  "(if a then filter P xs else if b then filter Q xs else if c then filter R xs else xs) =
   filter (\<lambda>x. if a then P x else if b then Q x else if c then R x else True) xs"
  by simp

lemma filteredAppointments_eq:
  "filteredAppointments v today = sortBy byDateTime (filter (visible v today) (appointments v))"
proof -
  have "visible v today = (\<lambda>apt. ((((
       (if activeTab v = ''Today'' then date apt = today
       else if activeTab v = ''Upcoming'' then ge0 (compareDates (date apt) today)
       else if activeTab v = ''Past'' then lt0 (compareDates (date apt) today)
       else True) \<and>
      (if truthy (selectedDate v) then Some (date apt) = selectedDate v else True)) \<and>
      (if trim (searchQuery v) \<noteq> [] then
         includes' (toLowerCase (name apt)) (toLowerCase (searchQuery v)) \<or>
         includes' (toLowerCase (doctorName apt)) (toLowerCase (searchQuery v)) \<or>
         includes' (toLowerCase (reason apt)) (toLowerCase (searchQuery v))
       else True)) \<and>
      (if statusFilter v \<noteq> ''All Status'' then status apt = statusFilter v else True)) \<and>
      (if doctorFilter v \<noteq> ''All Doctors'' then doctorName apt = doctorFilter v else True)))"
    unfolding visible_def by (intro ext) blast
  then show ?thesis
    unfolding filteredAppointments_def Let_def if3_filter if_filter filter_filter
    by simp
qed

lemma set_filteredAppointments:
  "set (filteredAppointments v today) = {apt \<in> set (appointments v). visible v today apt}"
  by (simp add: filteredAppointments_eq set_sortBy)

lemma mset_filteredAppointments:
  "mset (filteredAppointments v today) = filter_mset (visible v today) (mset (appointments v))"
  by (simp add: filteredAppointments_eq mset_sortBy)

lemma visible_search:
  "visible v today apt \<Longrightarrow> trim (searchQuery v) \<noteq> [] \<Longrightarrow> matchesQuery (searchQuery v) apt"
  by (auto simp: visible_def matchesQuery_def includes'_occursIn split: if_splits)

section \<open>The visible list: what it contains\<close>

text \<open>
  Claim C1. Whatever the collection and the filters, the visible list holds no record
  more often than the collection does, and every record of it belongs to the collection
  and passes every filter that is switched on: the tab (\<open>Today\<close>: the date is today's;
  \<open>Upcoming\<close>: the date is not before today; \<open>Past\<close>: the date is before today;
  any other tab: nothing), the selected date when there is one, the search when the
  query is not blank (the query as typed occurs, letter case aside, in the patient's
  name, the doctor's name or the reason, and hence so does the trimmed query), the status
  unless the status filter is \<open>All Status\<close>, and the doctor unless the doctor filter is
  \<open>All Doctors\<close>.
\<close>

theorem filteredAppointments_sound:
  "mset (filteredAppointments v today) \<subseteq># mset (appointments v) \<and>
   (\<forall>apt \<in> set (filteredAppointments v today).
      apt \<in> set (appointments v) \<and>
      (activeTab v = ''Today'' \<longrightarrow> date apt = today) \<and>
      (activeTab v = ''Upcoming'' \<longrightarrow> dateNotBefore (date apt) today) \<and>
      (activeTab v = ''Past'' \<longrightarrow> dateBefore (date apt) today) \<and>
      (truthy (selectedDate v) \<longrightarrow> Some (date apt) = selectedDate v) \<and>
      (trim (searchQuery v) \<noteq> [] \<longrightarrow>
         matchesQuery (searchQuery v) apt \<and> matchesQuery (trim (searchQuery v)) apt) \<and>
      (statusFilter v \<noteq> ''All Status'' \<longrightarrow> status apt = statusFilter v) \<and>
      (doctorFilter v \<noteq> ''All Doctors'' \<longrightarrow> doctorName apt = doctorFilter v))"
proof (intro conjI ballI)
  show "mset (filteredAppointments v today) \<subseteq># mset (appointments v)"
    by (simp add: mset_filteredAppointments)
next
  fix apt
  assume "apt \<in> set (filteredAppointments v today)"
  then have mem: "apt \<in> set (appointments v)" and vis: "visible v today apt"
    by (simp_all add: set_filteredAppointments)
  show "apt \<in> set (appointments v)" by (rule mem)
  show "activeTab v = ''Today'' \<longrightarrow> date apt = today"
    using vis by (auto simp: visible_def split: if_splits)
  show "activeTab v = ''Upcoming'' \<longrightarrow> dateNotBefore (date apt) today"
    using vis by (auto simp: visible_def ge0_compareDates split: if_splits)
  show "activeTab v = ''Past'' \<longrightarrow> dateBefore (date apt) today"
    using vis by (auto simp: visible_def lt0_compareDates split: if_splits)
  show "truthy (selectedDate v) \<longrightarrow> Some (date apt) = selectedDate v"
    using vis by (auto simp: visible_def split: if_splits)
  show "trim (searchQuery v) \<noteq> [] \<longrightarrow>
         matchesQuery (searchQuery v) apt \<and> matchesQuery (trim (searchQuery v)) apt"
    using vis visible_search matchesQuery_trim by blast
  show "statusFilter v \<noteq> ''All Status'' \<longrightarrow> status apt = statusFilter v"
    using vis by (auto simp: visible_def split: if_splits)
  show "doctorFilter v \<noteq> ''All Doctors'' \<longrightarrow> doctorName apt = doctorFilter v"
    using vis by (auto simp: visible_def split: if_splits)
qed

lemma sample_member: "MOCK_APPOINTMENTS ! 0 \<in> set (filteredAppointments sampleView ''2025-12-10'')"
  by code_simp

lemma sample_switches:
  "activeTab sampleView = ''Upcoming'' \<and> truthy (selectedDate sampleView) \<and>
   trim (searchQuery sampleView) \<noteq> [] \<and> statusFilter sampleView \<noteq> ''All Status'' \<and>
   doctorFilter sampleView \<noteq> ''All Doctors''"
  by code_simp

theorem filteredAppointments_sound_witness:
  "MOCK_APPOINTMENTS ! 0 \<in> set (filteredAppointments sampleView ''2025-12-10'') \<and>
   activeTab sampleView = ''Upcoming'' \<and> truthy (selectedDate sampleView) \<and>
   trim (searchQuery sampleView) \<noteq> [] \<and> statusFilter sampleView \<noteq> ''All Status'' \<and>
   doctorFilter sampleView \<noteq> ''All Doctors'' \<and>
   dateNotBefore (date (MOCK_APPOINTMENTS ! 0)) ''2025-12-10'' \<and>
   Some (date (MOCK_APPOINTMENTS ! 0)) = selectedDate sampleView \<and>
   matchesQuery (searchQuery sampleView) (MOCK_APPOINTMENTS ! 0) \<and>
   status (MOCK_APPOINTMENTS ! 0) = statusFilter sampleView \<and>
   doctorName (MOCK_APPOINTMENTS ! 0) = doctorFilter sampleView"
  using filteredAppointments_sound [of sampleView "''2025-12-10''"] sample_member sample_switches
  by blast


section \<open>Statistics: what is counted\<close>



section \<open>The status update\<close>

text \<open>
  Claim C5. When the remote call succeeds, the state after \<open>handleStatusUpdate\<close> is the
  state before except for the collection; the collection has the same length, every
  record with the given identifier is the old record with the new status (all its other
  fields as before), and every other record is unchanged. The promise is fulfilled.
\<close>

theorem handleStatusUpdate_success:
  "(let v' = fst (handleStatusUpdate v appointmentId newStatus (Fulfilled r) fetchResult) in
      snd (handleStatusUpdate v appointmentId newStatus (Fulfilled r) fetchResult) = Fulfilled () \<and>
      v' = v\<lparr> appointments := appointments v' \<rparr> \<and>
      length (appointments v') = length (appointments v) \<and>
      (\<forall>k < length (appointments v).
         (id' (appointments v ! k) = appointmentId \<longrightarrow>
            appointments v' ! k = (appointments v ! k)\<lparr> status := newStatus \<rparr>) \<and>
         (id' (appointments v ! k) \<noteq> appointmentId \<longrightarrow>
            appointments v' ! k = appointments v ! k)))"
  by (simp add: handleStatusUpdate_def Let_def)

lemma sample_ids:
  "(2::nat) < length (appointments sampleView) \<and> (0::nat) < length (appointments sampleView) \<and>
   id' (appointments sampleView ! 2) = ''apt003'' \<and> id' (appointments sampleView ! 0) \<noteq> ''apt003''"
  by code_simp

theorem handleStatusUpdate_success_witness:
  "(2::nat) < length (appointments sampleView) \<and>
   id' (appointments sampleView ! 2) = ''apt003'' \<and>
   id' (appointments sampleView ! 0) \<noteq> ''apt003'' \<and>
   snd (handleStatusUpdate sampleView ''apt003'' ''Completed'' (Fulfilled ()) (Fulfilled [])) = Fulfilled () \<and>
   appointments (fst (handleStatusUpdate sampleView ''apt003'' ''Completed'' (Fulfilled ()) (Fulfilled []))) ! 2
     = (appointments sampleView ! 2)\<lparr> status := ''Completed'' \<rparr> \<and>
   appointments (fst (handleStatusUpdate sampleView ''apt003'' ''Completed'' (Fulfilled ()) (Fulfilled []))) ! 0
     = appointments sampleView ! 0"
  using handleStatusUpdate_success [of sampleView "''apt003''" "''Completed''" "()" "Fulfilled []"]
    sample_ids
  unfolding Let_def by blast

text \<open>
  Claim C10. When the remote call fails and the fetch of the failure path fails too, the
  promise is rejected with the error of the fetch, the collection is the optimistic one
  (the new status in place), and no alert is shown.
\<close>

theorem handleStatusUpdate_both_fail:
  "(let res = handleStatusUpdate v appointmentId newStatus (Rejected updateErr) (Rejected fetchErr) in
      snd res = Rejected fetchErr \<and>
      appointments (fst res) =
        map (\<lambda>apt. if id' apt = appointmentId then apt\<lparr> status := newStatus \<rparr> else apt)
            (appointments v) \<and>
      alerts (fst res) = alerts v)"
  by (cases updateErr) (simp add: handleStatusUpdate_def Let_def)

text \<open>
  Claim C4 says that a failed remote call is surfaced to the caller. With the remote call
  rejected and the fetch successful, the promise that \<open>handleStatusUpdate\<close> returns is
  fulfilled: its caller sees a normal completion.
\<close>

theorem handleStatusUpdate_failure_counterexample:
  "snd (handleStatusUpdate sampleView ''apt001'' ''Cancelled''
          (Rejected (Error ''HTTP error! status: 500'')) (Fulfilled sampleFetched)) = Fulfilled ()"
  by (simp add: handleStatusUpdate_def Let_def)

text \<open>
  Claim C4, amended. When the remote call fails and the fetch that follows succeeds, the
  collection is replaced as a whole by the fetched one (each record transformed), the
  failure is shown to the user by one alert with a fixed text and the error message is
  written to the console; the promise is fulfilled, no error reaches the caller.
\<close>

theorem handleStatusUpdate_failure:
  "(let res = handleStatusUpdate v appointmentId newStatus (Rejected (Error msg)) (Fulfilled data) in
      appointments (fst res) = map transformAppointment data \<and>
      alerts (fst res) = alerts v @ [''Failed to update appointment status''] \<and>
      console (fst res) = console v @ [(''Failed to update appointment:'', msg)] \<and>
      snd res = Fulfilled ())"
  by (simp add: handleStatusUpdate_def Let_def)

text \<open>
  Claim C6 says that an identifier absent from the local collection is signalled as not
  found. The sample collection has no \<open>apt012\<close>; with the remote call successful the
  update leaves the state as it was and the promise is fulfilled.
\<close>

theorem handleStatusUpdate_absent_counterexample:
  "''apt012'' \<notin> set (map id' (appointments sampleView)) \<and>
   handleStatusUpdate sampleView ''apt012'' ''Confirmed'' (Fulfilled ()) (Fulfilled sampleFetched)
     = (sampleView, Fulfilled ())"
  by code_simp

lemma map_unchanged: "\<forall>x \<in> set xs. f x = x \<Longrightarrow> map f xs = xs"
  by (induction xs) auto

text \<open>
  Claim C6, amended. The component does not look the identifier up: for an identifier
  absent from the local collection the optimistic step changes nothing, and when the
  remote call succeeds the state is unchanged and the promise fulfilled. Only the store
  reports an unknown identifier: the mock's \<open>updateAppointmentStatus\<close> rejects with a
  not-found error and leaves the store as it was when the identifier is absent from the
  store.
\<close>

theorem handleStatusUpdate_absent:
  "(appointmentId \<notin> id' ` set (appointments v) \<longrightarrow>
      handleStatusUpdate v appointmentId newStatus (Fulfilled r) fetchResult = (v, Fulfilled ())) \<and>
   (storeId \<notin> id_m ` set store \<longrightarrow>
      updateAppointmentStatus store storeId newStatus =
        (Rejected (Error (''Appointment with id '' @ [CHR 0x27] @ storeId @ [CHR 0x27] @ '' not found'')),
         store))"
proof (intro conjI impI)
  assume absent: "appointmentId \<notin> id' ` set (appointments v)"
  have "map (\<lambda>apt. if id' apt = appointmentId then apt\<lparr> status := newStatus \<rparr> else apt)
          (appointments v) = appointments v"
    using absent by (intro map_unchanged) auto
  then show "handleStatusUpdate v appointmentId newStatus (Fulfilled r) fetchResult = (v, Fulfilled ())"
    by (simp add: handleStatusUpdate_def Let_def)
next
  assume "storeId \<notin> id_m ` set store"
  then have "find (\<lambda>apt. id_m apt = storeId) store = None"
    by (auto simp: find_None_iff)
  then show "updateAppointmentStatus store storeId newStatus =
        (Rejected (Error (''Appointment with id '' @ [CHR 0x27] @ storeId @ [CHR 0x27] @ '' not found'')),
         store)"
    by (simp add: updateAppointmentStatus_def)
qed

lemma sample_absent:
  "''apt012'' \<notin> id' ` set (appointments sampleView) \<and> ''apt999'' \<notin> id_m ` set APPOINTMENTS"
  by code_simp

theorem handleStatusUpdate_absent_witness:
  "''apt012'' \<notin> id' ` set (appointments sampleView) \<and>
   ''apt999'' \<notin> id_m ` set APPOINTMENTS \<and>
   handleStatusUpdate sampleView ''apt012'' ''Confirmed'' (Fulfilled ()) (Fulfilled [])
     = (sampleView, Fulfilled ()) \<and>
   updateAppointmentStatus APPOINTMENTS ''apt999'' ''Confirmed'' =
     (Rejected (Error (''Appointment with id '' @ [CHR 0x27] @ ''apt999'' @ [CHR 0x27] @ '' not found'')),
      APPOINTMENTS)"
  using handleStatusUpdate_absent
    [of "''apt012''" sampleView "''Confirmed''" "()" "Fulfilled []" "''apt999''" APPOINTMENTS]
    sample_absent
  by blast

section \<open>The statuses in the mock store\<close>

lemma set_updateFirst: "set (updateFirst p f xs) \<subseteq> set xs \<union> f ` set xs"
  by (induction xs) auto

lemma updateAppointmentStatus_statuses:
  "status_m ` set (snd (updateAppointmentStatus store appointmentId newStatus))
     \<subseteq> insert newStatus (status_m ` set store)"
proof (cases "find (\<lambda>apt. id_m apt = appointmentId) store")
  case None
  then show ?thesis by (auto simp: updateAppointmentStatus_def)
next
  case (Some a)
  have "set (updateFirst (\<lambda>apt. id_m apt = appointmentId) (\<lambda>apt. apt\<lparr> status_m := newStatus \<rparr>) store)
          \<subseteq> set store \<union> (\<lambda>apt. apt\<lparr> status_m := newStatus \<rparr>) ` set store"
    by (rule set_updateFirst)
  then show ?thesis using Some by (auto simp: updateAppointmentStatus_def)
qed

lemma runUpdates_statuses:
  "status_m ` set (runUpdates store us) \<subseteq> status_m ` set store \<union> snd ` set us"
proof (induction store us rule: runUpdates.induct)
  case (1 store)
  then show ?case by simp
next
  case (2 store appointmentId newStatus us)
  have "status_m ` set (runUpdates (snd (updateAppointmentStatus store appointmentId newStatus)) us)
          \<subseteq> insert newStatus (status_m ` set store) \<union> snd ` set us"
    using 2 updateAppointmentStatus_statuses [of store appointmentId newStatus] by blast
  then show ?case by auto
qed

lemma seed_statuses:
  "status_m ` set APPOINTMENTS = {''Confirmed'', ''Scheduled'', ''Upcoming'', ''Cancelled''}"
  by (simp add: APPOINTMENTS_def) blast

text \<open>
  Claim C7 says that every status is one of \<open>Scheduled\<close>, \<open>Confirmed\<close>, \<open>Completed\<close>,
  \<open>Cancelled\<close>. The fourth record of the seed data has the status \<open>Upcoming\<close>, and an
  update stores whatever string it is given.
\<close>

theorem store_status_counterexample:
  "status_m (APPOINTMENTS ! 3) = ''Upcoming'' \<and> \<not> isStatusValue (status_m (APPOINTMENTS ! 3)) \<and>
   status_m (runUpdates APPOINTMENTS [(''apt001'', ''Rescheduled'')] ! 0) = ''Rescheduled'' \<and>
   \<not> isStatusValue ''Rescheduled''"
  by code_simp

text \<open>
  Claim C7, amended. In the seed data and after any sequence of status updates, the
  status of every appointment of the store is one of the seed's four values
  \<open>Confirmed\<close>, \<open>Scheduled\<close>, \<open>Upcoming\<close>, \<open>Cancelled\<close> or a string that one of the
  updates supplied; an update does not check the string.
\<close>

theorem store_statuses:
  "\<forall>apt \<in> set (runUpdates APPOINTMENTS us).
     status_m apt \<in> {''Confirmed'', ''Scheduled'', ''Upcoming'', ''Cancelled''} \<union> snd ` set us"
  using runUpdates_statuses [of APPOINTMENTS us] seed_statuses by blast

theorem store_statuses_witness:
  "(APPOINTMENTS ! 1) \<lparr> status_m := ''Completed'' \<rparr>
     \<in> set (runUpdates APPOINTMENTS [(''apt002'', ''Completed'')]) \<and>
   status_m ((APPOINTMENTS ! 1) \<lparr> status_m := ''Completed'' \<rparr>)
     \<in> {''Confirmed'', ''Scheduled'', ''Upcoming'', ''Cancelled''} \<union> snd ` set [(''apt002'', ''Completed'')]"
proof -
  have "(APPOINTMENTS ! 1) \<lparr> status_m := ''Completed'' \<rparr>
          \<in> set (runUpdates APPOINTMENTS [(''apt002'', ''Completed'')])"
    by code_simp
  then show ?thesis using store_statuses [of "[(''apt002'', ''Completed'')]"] by blast
qed

section \<open>Tabs and the selected date\<close>

lemma step_selectedDate:
  "selectedDate (step v e) \<noteq> None \<Longrightarrow>
     (\<exists>d. e = DateSelect d) \<or> (\<not> isTabChange e \<and> selectedDate v \<noteq> None)"
  by (cases e)
     (auto simp: isTabChange_def handleDateSelect_def handleTabChange_def changeMonth_def
        fetchData_def handleStatusUpdate_def Let_def
        split: promise.splits jserror.splits if_splits)

text \<open>
  Claim C9. Right after \<open>handleTabChange\<close> no date is selected. Hence, starting from a
  state without a selected date (as the initial state is), whenever a date is selected
  after a sequence of events, the sequence contains a date selection that no tab change
  follows.
\<close>

theorem handleTabChange_clears_date:
  "selectedDate (handleTabChange v tab) = None \<and>
   (selectedDate v0 = None \<and> selectedDate (foldl step v0 evs) \<noteq> None \<longrightarrow>
      (\<exists>pre d post. evs = pre @ DateSelect d # post \<and> (\<forall>e \<in> set post. \<not> isTabChange e)))"
proof
  show "selectedDate (handleTabChange v tab) = None"
    by (simp add: handleTabChange_def)
next
  have "selectedDate (foldl step v0 evs) \<noteq> None \<Longrightarrow> selectedDate v0 = None \<Longrightarrow>
      \<exists>pre d post. evs = pre @ DateSelect d # post \<and> (\<forall>e \<in> set post. \<not> isTabChange e)"
  proof (induction evs rule: rev_induct)
    case Nil
    then show ?case by simp
  next
    case (snoc e evs)
    from snoc.prems(1) have "selectedDate (step (foldl step v0 evs) e) \<noteq> None" by simp
    then consider d where "e = DateSelect d"
      | "\<not> isTabChange e" "selectedDate (foldl step v0 evs) \<noteq> None"
      using step_selectedDate by blast
    then show ?case
    proof cases
      case 1
      then have "evs @ [e] = evs @ DateSelect d # []" by simp
      then show ?thesis by (metis empty_iff empty_set)
    next
      case 2
      then obtain pre d post where
        evs: "evs = pre @ DateSelect d # post" and post: "\<forall>e \<in> set post. \<not> isTabChange e"
        using snoc.IH snoc.prems(2) by blast
      have "evs @ [e] = pre @ DateSelect d # (post @ [e])" using evs by simp
      moreover have "\<forall>x \<in> set (post @ [e]). \<not> isTabChange x" using post 2(1) by simp
      ultimately show ?thesis by blast
    qed
  qed
  then show "selectedDate v0 = None \<and> selectedDate (foldl step v0 evs) \<noteq> None \<longrightarrow>
      (\<exists>pre d post. evs = pre @ DateSelect d # post \<and> (\<forall>e \<in> set post. \<not> isTabChange e))"
    by blast
qed

lemma sample_events:
  "selectedDate (initialView 0 :: string view) = None \<and>
   selectedDate (foldl step (initialView 0 :: string view)
                   [TabChange ''Today'', DateSelect ''2025-12-15'', SearchInput ''sar'']) \<noteq> None"
  by (simp add: initialView_def handleTabChange_def handleDateSelect_def)

theorem handleTabChange_clears_date_witness:
  "selectedDate (initialView 0 :: string view) = None \<and>
   selectedDate (foldl step (initialView 0 :: string view)
                   [TabChange ''Today'', DateSelect ''2025-12-15'', SearchInput ''sar'']) \<noteq> None \<and>
   selectedDate (handleTabChange (initialView 0 :: string view) ''Today'') = None \<and>
   (\<exists>pre d post. [TabChange ''Today'', DateSelect ''2025-12-15'', SearchInput ''sar'']
                    = pre @ DateSelect d # post \<and>
                  (\<forall>e \<in> set post. \<not> isTabChange (e :: string event)))"
  using handleTabChange_clears_date
    [of "initialView 0 :: string view" "''Today''" "initialView 0 :: string view"
        "[TabChange ''Today'', DateSelect ''2025-12-15'', SearchInput ''sar'']"]
    sample_events
  by blast

section \<open>The order of the visible list\<close>

lemma compareLists_flip: "compareLists ys xs = - compareLists xs ys"
  by (induction xs ys rule: compareLists.induct) auto

lemma compareLists_Cons:
  "compareLists (x # xs) (y # ys) \<le> 0 \<longleftrightarrow> x < y \<or> (x = y \<and> compareLists xs ys \<le> 0)"
  by auto

lemma compareLists_Nil_left: "compareLists [] ys \<le> 0"
  by (cases ys) auto

lemma compareLists_Nil_right: "compareLists xs [] \<le> 0 \<longleftrightarrow> xs = []"
  by (cases xs) auto

lemma compareLists_zero: "compareLists xs ys = 0 \<longleftrightarrow> xs = ys"
  by (induction xs ys rule: compareLists.induct) auto

lemma compareLists_trans:
  "compareLists xs ys \<le> 0 \<Longrightarrow> compareLists ys zs \<le> 0 \<Longrightarrow> compareLists xs zs \<le> 0"
proof (induction xs arbitrary: ys zs)
  case Nil
  then show ?case by (simp add: compareLists_Nil_left)
next
  case (Cons x xs)
  from Cons.prems(1) obtain y ys' where ys: "ys = y # ys'"
    by (cases ys) auto
  from Cons.prems(2) ys obtain z zs' where zs: "zs = z # zs'"
    by (cases zs) auto
  have 1: "x < y \<or> (x = y \<and> compareLists xs ys' \<le> 0)"
    using Cons.prems(1) unfolding ys compareLists_Cons .
  have 2: "y < z \<or> (y = z \<and> compareLists ys' zs' \<le> 0)"
    using Cons.prems(2) unfolding ys zs compareLists_Cons .
  have "x < z \<or> (x = z \<and> compareLists xs zs' \<le> 0)"
    using 1 2 Cons.IH [of ys' zs'] by linarith
  then show ?case unfolding zs compareLists_Cons .
qed

lemma localeCompare_le:
  "localeCompare s t \<le> 0 \<longleftrightarrow>
     (let ks = filter (\<lambda>c. \<not> ignorable c) s; kt = filter (\<lambda>c. \<not> ignorable c) t
      in map primaryWeight ks \<noteq> map primaryWeight kt \<and>
           compareLists (map primaryWeight ks) (map primaryWeight kt) \<le> 0 \<or>
         map primaryWeight ks = map primaryWeight kt \<and>
           compareLists (map caseWeight ks) (map caseWeight kt) \<le> 0)"
  by (auto simp: localeCompare_def Let_def compareLists_zero)

lemma localeCompare_flip: "localeCompare t s = - localeCompare s t"
proof -
  let ?ks = "filter (\<lambda>c. \<not> ignorable c) s"
  let ?kt = "filter (\<lambda>c. \<not> ignorable c) t"
  have p: "compareLists (map primaryWeight ?kt) (map primaryWeight ?ks)
             = - compareLists (map primaryWeight ?ks) (map primaryWeight ?kt)"
    by (rule compareLists_flip)
  have c: "compareLists (map caseWeight ?kt) (map caseWeight ?ks)
             = - compareLists (map caseWeight ?ks) (map caseWeight ?kt)"
    by (rule compareLists_flip)
  show ?thesis unfolding localeCompare_def Let_def p c by simp
qed

lemma localeCompare_trans:
  assumes "localeCompare s t \<le> 0" and "localeCompare t u \<le> 0"
  shows "localeCompare s u \<le> 0"
proof -
  define ps where "ps = map primaryWeight (filter (\<lambda>c. \<not> ignorable c) s)"
  define pt where "pt = map primaryWeight (filter (\<lambda>c. \<not> ignorable c) t)"
  define pu where "pu = map primaryWeight (filter (\<lambda>c. \<not> ignorable c) u)"
  define cs where "cs = map caseWeight (filter (\<lambda>c. \<not> ignorable c) s)"
  define ct where "ct = map caseWeight (filter (\<lambda>c. \<not> ignorable c) t)"
  define cu where "cu = map caseWeight (filter (\<lambda>c. \<not> ignorable c) u)"
  have st: "ps \<noteq> pt \<and> compareLists ps pt \<le> 0 \<or> ps = pt \<and> compareLists cs ct \<le> 0"
    using assms(1) by (simp add: localeCompare_le Let_def ps_def pt_def cs_def ct_def)
  have tu: "pt \<noteq> pu \<and> compareLists pt pu \<le> 0 \<or> pt = pu \<and> compareLists ct cu \<le> 0"
    using assms(2) by (simp add: localeCompare_le Let_def pt_def pu_def ct_def cu_def)
  have p1: "compareLists ps pt \<le> 0" using st by (auto simp: compareLists_zero [THEN iffD2])
  have p2: "compareLists pt pu \<le> 0" using tu by (auto simp: compareLists_zero [THEN iffD2])
  have p3: "compareLists ps pu \<le> 0" using p1 p2 by (rule compareLists_trans)
  have "ps \<noteq> pu \<and> compareLists ps pu \<le> 0 \<or> ps = pu \<and> compareLists cs cu \<le> 0"
  proof (cases "ps = pu")
    case False
    then show ?thesis using p3 by simp
  next
    case True
    have "compareLists pt ps \<le> 0" using p2 True by simp
    then have "0 \<le> compareLists ps pt" using compareLists_flip [of ps pt] by simp
    then have "compareLists ps pt = 0" using p1 by simp
    then have eq: "ps = pt" by (simp add: compareLists_zero)
    then have "compareLists cs ct \<le> 0" using st by simp
    moreover have "compareLists ct cu \<le> 0" using tu eq True by simp
    ultimately have "compareLists cs cu \<le> 0" by (rule compareLists_trans)
    then show ?thesis using True by simp
  qed
  then show ?thesis
    by (simp add: localeCompare_le Let_def ps_def pu_def cs_def cu_def)
qed

lemma set_insertSorted: "set (insertSorted cmp x ys) = insert x (set ys)"
  by (induction ys) auto

lemma sorted_insertSorted:
  assumes le: "\<And>a b. a \<in> S \<Longrightarrow> b \<in> S \<Longrightarrow> (comparatorValue (cmp a b) \<le> 0) = R a b"
    and trans: "\<And>a b c. a \<in> S \<Longrightarrow> b \<in> S \<Longrightarrow> c \<in> S \<Longrightarrow> R a b \<Longrightarrow> R b c \<Longrightarrow> R a c"
    and total: "\<And>a b. a \<in> S \<Longrightarrow> b \<in> S \<Longrightarrow> \<not> R a b \<Longrightarrow> R b a"
    and x: "x \<in> S"
  shows "set ys \<subseteq> S \<Longrightarrow> sorted_wrt R ys \<Longrightarrow> sorted_wrt R (insertSorted cmp x ys)"
proof (induction ys)
  case Nil
  then show ?case by simp
next
  case (Cons y ys)
  have y: "y \<in> S" and ys: "set ys \<subseteq> S" using Cons.prems(1) by simp_all
  have sy: "\<forall>z \<in> set ys. R y z" and sys: "sorted_wrt R ys" using Cons.prems(2) by simp_all
  have cmp: "(comparatorValue (cmp x y) \<le> 0) = R x y" using le x y by blast
  show ?case
  proof (cases "R x y")
    case True
    have "\<forall>z \<in> set ys. R x z"
    proof
      fix z assume z: "z \<in> set ys"
      then have "z \<in> S" using ys by blast
      moreover have "R y z" using sy z by blast
      ultimately show "R x z" using trans [OF x y _ True] by blast
    qed
    then have "sorted_wrt R (x # y # ys)" using True sy sys by simp
    then show ?thesis using True cmp by simp
  next
    case False
    have yx: "R y x" using total [OF x y False] .
    have ih: "sorted_wrt R (insertSorted cmp x ys)" using Cons.IH ys sys by blast
    have "\<forall>z \<in> set (insertSorted cmp x ys). R y z"
      using yx sy by (simp add: set_insertSorted)
    then have "sorted_wrt R (y # insertSorted cmp x ys)" using ih by simp
    then show ?thesis using False cmp by simp
  qed
qed

lemma sorted_sortBy:
  assumes le: "\<And>a b. a \<in> set xs \<Longrightarrow> b \<in> set xs \<Longrightarrow> (comparatorValue (cmp a b) \<le> 0) = R a b"
    and trans: "\<And>a b c. a \<in> set xs \<Longrightarrow> b \<in> set xs \<Longrightarrow> c \<in> set xs \<Longrightarrow> R a b \<Longrightarrow> R b c \<Longrightarrow> R a c"
    and total: "\<And>a b. a \<in> set xs \<Longrightarrow> b \<in> set xs \<Longrightarrow> \<not> R a b \<Longrightarrow> R b a"
  shows "sorted_wrt R (sortBy cmp xs)"
proof -
  have "set ys \<subseteq> set xs \<Longrightarrow> sorted_wrt R (foldr (insertSorted cmp) ys [])" for ys
  proof (induction ys)
    case Nil
    then show ?case by simp
  next
    case (Cons y ys)
    have y: "y \<in> set xs" and ys: "set ys \<subseteq> set xs" using Cons.prems by simp_all
    have ih: "sorted_wrt R (foldr (insertSorted cmp) ys [])" using Cons.IH ys by blast
    have "set (foldr (insertSorted cmp) ys []) = set ys"
      using set_sortBy [of cmp ys] by (simp add: sortBy_def)
    then have sub: "set (foldr (insertSorted cmp) ys []) \<subseteq> set xs" using ys by simp
    have "sorted_wrt R (insertSorted cmp y (foldr (insertSorted cmp) ys []))"
      by (rule sorted_insertSorted [where S = "set xs", OF le trans total y sub ih])
    then show ?case by simp
  qed
  then show ?thesis by (simp add: sortBy_def)
qed

lemma byDateTime_le:
  assumes "dateGetTime (date a) \<noteq> None" and "dateGetTime (date b) \<noteq> None"
  shows "(comparatorValue (byDateTime a b) \<le> 0) = dateTimeLe a b"
  using assms
  by (auto simp: byDateTime_def compareDates_def comparatorValue_def dateTimeLe_def Let_def)

lemma dateTimeLe_trans: "dateTimeLe a b \<Longrightarrow> dateTimeLe b c \<Longrightarrow> dateTimeLe a c"
  unfolding dateTimeLe_def
  using localeCompare_trans [of "time a" "time b" "time c"]
  by (auto split: option.splits)

lemma dateTimeLe_total:
  assumes "dateGetTime (date a) \<noteq> None" and "dateGetTime (date b) \<noteq> None"
    and "\<not> dateTimeLe a b"
  shows "dateTimeLe b a"
  using assms localeCompare_flip [of "time a" "time b"]
  by (auto simp: dateTimeLe_def)

lemma sorted_filteredAppointments:
  assumes "\<forall>apt \<in> set (filteredAppointments v today). dateGetTime (date apt) \<noteq> None"
  shows "sorted_wrt dateTimeLe (filteredAppointments v today)"
proof -
  let ?xs = "filter (visible v today) (appointments v)"
  have valid: "\<And>a. a \<in> set ?xs \<Longrightarrow> dateGetTime (date a) \<noteq> None"
    using assms by (simp add: filteredAppointments_eq set_sortBy)
  have "sorted_wrt dateTimeLe (sortBy byDateTime ?xs)"
  proof (rule sorted_sortBy)
    fix a b assume "a \<in> set ?xs" "b \<in> set ?xs"
    then show "(comparatorValue (byDateTime a b) \<le> 0) = dateTimeLe a b"
      using valid byDateTime_le by blast
  next
    fix a b c assume "dateTimeLe a b" "dateTimeLe b c"
    then show "dateTimeLe a c" by (rule dateTimeLe_trans)
  next
    fix a b assume "a \<in> set ?xs" "b \<in> set ?xs" "\<not> dateTimeLe a b"
    then show "dateTimeLe b a" using valid dateTimeLe_total by blast
  qed
  then show ?thesis by (simp add: filteredAppointments_eq)
qed

lemma digitVal_Some: "digitVal c = Some v \<Longrightarrow> (of_char c :: nat) = 48 + v \<and> v \<le> 9"
  by (auto simp: digitVal_def Let_def split: if_splits)

lemma digitVal_colon: "digitVal c = Some v \<Longrightarrow> c \<noteq> CHR '':''"
  by (auto simp: digitVal_def Let_def split: if_splits)

lemma parseDigits_two:
  "parseDigits [a, b] = Some n \<longleftrightarrow>
     (\<exists>va vb. digitVal a = Some va \<and> digitVal b = Some vb \<and> n = 10 * va + vb)"
  by (auto simp: parseDigits_def split: option.splits)

lemma length_five: "length t = 5 \<Longrightarrow> \<exists>a b x c d. t = [a, b, x, c, d]"
  by (auto simp: numeral_eq_Suc length_Suc_conv)

lemma digit_cases:
  assumes "v \<le> (9::nat)"
  obtains "v = 0" | "v = 1" | "v = 2" | "v = 3" | "v = 4" | "v = 5" | "v = 6" | "v = 7"
    | "v = 8" | "v = 9"
  using assms by atomize_elim arith

lemma digit_weight:
  assumes "digitVal c = Some v"
  shows "primaryWeight c = 38 + v" and "\<not> ignorable c"
proof -
  have c: "(of_char c :: nat) = 48 + v" and v: "v \<le> 9"
    using digitVal_Some [OF assms] by simp_all
  have low: "toLowerChar c = c" using c v by (simp add: toLowerChar_def Let_def)
  have "indexOf (48 + v) collationOrder = 38 + v"
    using v by (cases rule: digit_cases) (simp_all add: collationOrder_def)
  then show "primaryWeight c = 38 + v"
    using c v by (simp add: primaryWeight_def low Let_def)
  show "\<not> ignorable c" using c v by (simp add: ignorable_def Let_def)
qed

lemma colon_weight: "primaryWeight CHR '':'' = 10" "\<not> ignorable CHR '':''"
  by (simp_all add: primaryWeight_def toLowerChar_def ignorable_def collationOrder_def Let_def)

text \<open>Some comparisons: a colon before a digit, a small letter before a capital.\<close>

lemma localeCompare_examples:
  "localeCompare ''1:00'' ''10:00'' = -1"
  "localeCompare ''10:00'' ''9:00'' = -1"
  "localeCompare ''a'' ''B'' = -1"
  "localeCompare ''a'' ''A'' = -1"
  "localeCompare ''09:00'' ''09:00:00'' = -1"
  by code_simp+

lemma isHHMM_form:
  assumes "isHHMM t"
  shows "\<exists>a b c d va vb vc vd.
           t = [a, b, CHR '':'', c, d] \<and> digitVal a = Some va \<and> digitVal b = Some vb \<and>
           digitVal c = Some vc \<and> digitVal d = Some vd \<and> 10 * va + vb < 24 \<and> 10 * vc + vd < 60"
proof -
  from assms have len: "length t = 5" by (simp add: isHHMM_def)
  then obtain a b x c d where t: "t = [a, b, x, c, d]" using length_five by blast
  from assms t have x: "x = CHR '':''" by (simp add: isHHMM_def)
  from assms t obtain hh mm where
    hh: "parseDigits [a, b] = Some hh" and mm: "parseDigits [c, d] = Some mm"
    and bounds: "hh < 24" "mm < 60"
    by (auto simp: isHHMM_def split: option.splits)
  from hh obtain va vb where "digitVal a = Some va" "digitVal b = Some vb" "hh = 10 * va + vb"
    using parseDigits_two by blast
  moreover from mm obtain vc vd where "digitVal c = Some vc" "digitVal d = Some vd" "mm = 10 * vc + vd"
    using parseDigits_two by blast
  ultimately show ?thesis using t x bounds by blast
qed

lemma length_eight: "length t = 8 \<Longrightarrow> \<exists>a b x c d y e f. t = [a, b, x, c, d, y, e, f]"
  by (auto simp: numeral_eq_Suc length_Suc_conv)

lemma isClockTime_form:
  assumes "isClockTime t"
  shows "\<exists>a b c d r va vb vc vd.
           t = [a, b, CHR '':'', c, d] @ r \<and> digitVal a = Some va \<and> digitVal b = Some vb \<and>
           digitVal c = Some vc \<and> digitVal d = Some vd \<and> 10 * vc + vd < 60 \<and>
           (r = [] \<or> (\<exists>e f ve vf. r = [CHR '':'', e, f] \<and> digitVal e = Some ve \<and> digitVal f = Some vf))"
proof (cases "isHHMM t")
  case True
  then obtain a b c d va vb vc vd where
    "t = [a, b, CHR '':'', c, d]" "digitVal a = Some va" "digitVal b = Some vb"
    "digitVal c = Some vc" "digitVal d = Some vd" "10 * vc + vd < 60"
    using isHHMM_form by blast
  then have "t = [a, b, CHR '':'', c, d] @ [] \<and> digitVal a = Some va \<and> digitVal b = Some vb \<and>
           digitVal c = Some vc \<and> digitVal d = Some vd \<and> 10 * vc + vd < 60" by simp
  then show ?thesis by blast
next
  case False
  with assms have len: "length t = 8" and head: "isHHMM (take 5 t)" and col: "t ! 5 = CHR '':''"
    and sec: "parseDigits (drop 6 t) \<noteq> None"
    by (auto simp: isClockTime_def split: option.splits)
  from len obtain a b x c d y e f where t: "t = [a, b, x, c, d, y, e, f]"
    using length_eight by blast
  from head t obtain a' b' c' d' va vb vc vd where
    h: "[a, b, x, c, d] = [a', b', CHR '':'', c', d']" "digitVal a' = Some va" "digitVal b' = Some vb"
    "digitVal c' = Some vc" "digitVal d' = Some vd" "10 * vc + vd < 60"
    using isHHMM_form [of "take 5 t"] by auto
  from col t have y: "y = CHR '':''" by simp
  from sec t obtain n where "parseDigits [e, f] = Some n" by auto
  then obtain ve vf where ef: "digitVal e = Some ve" "digitVal f = Some vf"
    using parseDigits_two by blast
  have "t = [a, b, CHR '':'', c, d] @ [CHR '':'', e, f]" using t h(1) y by simp
  moreover have "digitVal a = Some va" "digitVal b = Some vb" "digitVal c = Some vc" "digitVal d = Some vd"
    using h by simp_all
  ultimately show ?thesis using h(6) ef by blast
qed

lemma timeMinutes_form:
  assumes "digitVal a = Some va" "digitVal b = Some vb" "digitVal c = Some vc" "digitVal d = Some vd"
    and "r = [] \<or> (\<exists>e f ve vf. r = [CHR '':'', e, f] \<and> digitVal e = Some ve \<and> digitVal f = Some vf)"
  shows "timeMinutes ([a, b, CHR '':'', c, d] @ r) = Some (60 * (10 * va + vb) + (10 * vc + vd))"
proof -
  have hm: "parseDigits [a, b] = Some (10 * va + vb)" "parseDigits [c, d] = Some (10 * vc + vd)"
    using assms(1-4) parseDigits_two by blast+
  from assms(5) show ?thesis
  proof
    assume r: "r = []"
    have "split CHR '':'' [a, b, CHR '':'', c, d] = [[a, b], [c, d]]"
      using assms(1-4) digitVal_colon by auto
    then show ?thesis using hm r by (simp add: timeMinutes_def)
  next
    assume "\<exists>e f ve vf. r = [CHR '':'', e, f] \<and> digitVal e = Some ve \<and> digitVal f = Some vf"
    then obtain e f ve vf where r: "r = [CHR '':'', e, f]"
      and ef: "digitVal e = Some ve" "digitVal f = Some vf" by blast
    have "split CHR '':'' [a, b, CHR '':'', c, d, CHR '':'', e, f] = [[a, b], [c, d], [e, f]]"
      using assms(1-4) ef digitVal_colon by auto
    moreover have "parseDigits [e, f] = Some (10 * ve + vf)"
      using ef parseDigits_two by blast
    ultimately show ?thesis using hm r by (simp add: timeMinutes_def)
  qed
qed

lemma clock_weights:
  assumes "digitVal a = Some va" "digitVal b = Some vb" "digitVal c = Some vc" "digitVal d = Some vd"
  shows "map primaryWeight (filter (\<lambda>x. \<not> ignorable x) ([a, b, CHR '':'', c, d] @ r))
           = [38 + va, 38 + vb, 10, 38 + vc, 38 + vd]
               @ map primaryWeight (filter (\<lambda>x. \<not> ignorable x) r)"
proof -
  have "filter (\<lambda>x. \<not> ignorable x) ([a, b, CHR '':'', c, d] @ r)
          = [a, b, CHR '':'', c, d] @ filter (\<lambda>x. \<not> ignorable x) r"
    using digit_weight(2) [OF assms(1)] digit_weight(2) [OF assms(2)] digit_weight(2) [OF assms(3)]
      digit_weight(2) [OF assms(4)] colon_weight(2)
    by simp
  then show ?thesis
    using digit_weight(1) [OF assms(1)] digit_weight(1) [OF assms(2)] digit_weight(1) [OF assms(3)]
      digit_weight(1) [OF assms(4)] colon_weight(1)
    by simp
qed

lemma localeCompare_primary:
  assumes "localeCompare s t \<le> 0"
  shows "compareLists (map primaryWeight (filter (\<lambda>x. \<not> ignorable x) s))
                      (map primaryWeight (filter (\<lambda>x. \<not> ignorable x) t)) \<le> 0"
proof (cases "map primaryWeight (filter (\<lambda>x. \<not> ignorable x) s)
                = map primaryWeight (filter (\<lambda>x. \<not> ignorable x) t)")
  case True
  then show ?thesis by (simp add: compareLists_zero [THEN iffD2])
next
  case False
  then show ?thesis using assms by (simp add: localeCompare_le Let_def)
qed

lemma head_order:
  fixes va vb vc vd wa wb wc wd :: nat
  assumes "compareLists ([38 + va, 38 + vb, 10, 38 + vc, 38 + vd] @ ws)
                        ([38 + wa, 38 + wb, 10, 38 + wc, 38 + wd] @ wt) \<le> 0"
  shows "va < wa \<or> (va = wa \<and> (vb < wb \<or> (vb = wb \<and> (vc < wc \<or> (vc = wc \<and> vd \<le> wd)))))"
proof -
  have 1: "38 + va < 38 + wa \<or> (38 + va = 38 + wa \<and>
            compareLists ([38 + vb, 10, 38 + vc, 38 + vd] @ ws) ([38 + wb, 10, 38 + wc, 38 + wd] @ wt) \<le> 0)"
    using assms by (simp only: append_Cons compareLists_Cons)
  show ?thesis
  proof (cases "va < wa")
    case True
    then show ?thesis by simp
  next
    case False
    then have a: "va = wa" and
      2: "compareLists ([38 + vb, 10, 38 + vc, 38 + vd] @ ws) ([38 + wb, 10, 38 + wc, 38 + wd] @ wt) \<le> 0"
      using 1 by simp_all
    have 3: "38 + vb < 38 + wb \<or> (38 + vb = 38 + wb \<and>
            compareLists ([10, 38 + vc, 38 + vd] @ ws) ([10, 38 + wc, 38 + wd] @ wt) \<le> 0)"
      using 2 by (simp only: append_Cons compareLists_Cons)
    show ?thesis
    proof (cases "vb < wb")
      case True
      then show ?thesis using a by simp
    next
      case False
      then have b: "vb = wb" and
        4: "compareLists ([10, 38 + vc, 38 + vd] @ ws) ([10, 38 + wc, 38 + wd] @ wt) \<le> 0"
        using 3 by simp_all
      have 5: "compareLists ([38 + vc, 38 + vd] @ ws) ([38 + wc, 38 + wd] @ wt) \<le> 0"
        using 4 by (simp only: append_Cons compareLists_Cons) simp
      have 6: "38 + vc < 38 + wc \<or> (38 + vc = 38 + wc \<and>
            compareLists ([38 + vd] @ ws) ([38 + wd] @ wt) \<le> 0)"
        using 5 by (simp only: append_Cons compareLists_Cons)
      show ?thesis
      proof (cases "vc < wc")
        case True
        then show ?thesis using a b by simp
      next
        case False
        then have c: "vc = wc" and 7: "compareLists ([38 + vd] @ ws) ([38 + wd] @ wt) \<le> 0"
          using 6 by simp_all
        have "38 + vd < 38 + wd \<or> (38 + vd = 38 + wd \<and> compareLists ([] @ ws) ([] @ wt) \<le> 0)"
          using 7 by (simp only: append_Cons compareLists_Cons)
        then have "vd \<le> wd" by linarith
        then show ?thesis using a b c by simp
      qed
    qed
  qed
qed

lemma lex_minutes:
  fixes va vb vc vd wa wb wc wd :: nat
  assumes "vb \<le> 9" "vd \<le> 9" "10 * vc + vd < 60" "wb \<le> 9" "wd \<le> 9" "10 * wc + wd < 60"
  shows "(va < wa \<or> (va = wa \<and> (vb < wb \<or> (vb = wb \<and> (vc < wc \<or> (vc = wc \<and> vd \<le> wd))))))
         \<longleftrightarrow> 60 * (10 * va + vb) + (10 * vc + vd) \<le> 60 * (10 * wa + wb) + (10 * wc + wd)"
proof -
  have c: "vc \<le> 5" "wc \<le> 5" using assms by linarith+
  consider "va < wa" | "wa < va" | "va = wa" "vb < wb" | "va = wa" "wb < vb"
    | "va = wa" "vb = wb" "vc < wc" | "va = wa" "vb = wb" "wc < vc" | "va = wa" "vb = wb" "vc = wc"
    by linarith
  then show ?thesis
  proof cases
    case 1 then show ?thesis using assms c by (simp; linarith)
  next
    case 2 then show ?thesis using assms c by (simp; linarith)
  next
    case 3 then show ?thesis using assms c by (simp; linarith)
  next
    case 4 then show ?thesis using assms c by (simp; linarith)
  next
    case 5 then show ?thesis using assms c by (simp; linarith)
  next
    case 6 then show ?thesis using assms c by (simp; linarith)
  next
    case 7 then show ?thesis by simp
  qed
qed

lemma clock_order:
  assumes "isClockTime s" and "isClockTime t" and "localeCompare s t \<le> 0"
  shows "\<exists>m n. timeMinutes s = Some m \<and> timeMinutes t = Some n \<and> m \<le> n"
proof -
  obtain a b c d r va vb vc vd where
    s: "s = [a, b, CHR '':'', c, d] @ r" and
    sv: "digitVal a = Some va" "digitVal b = Some vb" "digitVal c = Some vc" "digitVal d = Some vd" and
    sb: "10 * vc + vd < 60" and
    sr: "r = [] \<or> (\<exists>e f ve vf. r = [CHR '':'', e, f] \<and> digitVal e = Some ve \<and> digitVal f = Some vf)"
    using isClockTime_form [OF assms(1)] by blast
  obtain a' b' c' d' r' wa wb wc wd where
    t: "t = [a', b', CHR '':'', c', d'] @ r'" and
    tv: "digitVal a' = Some wa" "digitVal b' = Some wb" "digitVal c' = Some wc" "digitVal d' = Some wd" and
    tb: "10 * wc + wd < 60" and
    tr: "r' = [] \<or> (\<exists>e f ve vf. r' = [CHR '':'', e, f] \<and> digitVal e = Some ve \<and> digitVal f = Some vf)"
    using isClockTime_form [OF assms(2)] by blast
  have ms: "timeMinutes s = Some (60 * (10 * va + vb) + (10 * vc + vd))"
    unfolding s using sv sr by (rule timeMinutes_form)
  have mt: "timeMinutes t = Some (60 * (10 * wa + wb) + (10 * wc + wd))"
    unfolding t using tv tr by (rule timeMinutes_form)
  have "compareLists (map primaryWeight (filter (\<lambda>x. \<not> ignorable x) s))
                     (map primaryWeight (filter (\<lambda>x. \<not> ignorable x) t)) \<le> 0"
    using assms(3) by (rule localeCompare_primary)
  then have "compareLists
      ([38 + va, 38 + vb, 10, 38 + vc, 38 + vd] @ map primaryWeight (filter (\<lambda>x. \<not> ignorable x) r))
      ([38 + wa, 38 + wb, 10, 38 + wc, 38 + wd] @ map primaryWeight (filter (\<lambda>x. \<not> ignorable x) r')) \<le> 0"
    unfolding s t clock_weights [OF sv] clock_weights [OF tv] .
  then have "va < wa \<or> (va = wa \<and> (vb < wb \<or> (vb = wb \<and> (vc < wc \<or> (vc = wc \<and> vd \<le> wd)))))"
    by (rule head_order)
  then have "60 * (10 * va + vb) + (10 * vc + vd) \<le> 60 * (10 * wa + wb) + (10 * wc + wd)"
    using lex_minutes [of vb vd vc wb wd wc va wa]
      digitVal_Some [OF sv(2)] digitVal_Some [OF sv(4)] digitVal_Some [OF tv(2)] digitVal_Some [OF tv(4)] sb tb
    by blast
  then show ?thesis using ms mt by blast
qed

lemma isClockTime_minutes:
  assumes "isClockTime t"
  shows "\<exists>m. timeMinutes t = Some m"
proof -
  obtain a b c d r va vb vc vd where
    t: "t = [a, b, CHR '':'', c, d] @ r" and
    v: "digitVal a = Some va" "digitVal b = Some vb" "digitVal c = Some vc" "digitVal d = Some vd" and
    r: "r = [] \<or> (\<exists>e f ve vf. r = [CHR '':'', e, f] \<and> digitVal e = Some ve \<and> digitVal f = Some vf)"
    using isClockTime_form [OF assms] by blast
  have "timeMinutes t = Some (60 * (10 * va + vb) + (10 * vc + vd))"
    unfolding t using v r by (rule timeMinutes_form)
  then show ?thesis by blast
qed

lemma dateTimeLe_minutes:
  assumes "isClockTime (time a)" and "isClockTime (time b)" and "dateTimeLe a b"
  shows "dateMinutesLe a b"
proof -
  from assms(3) obtain t1 t2 where
    t: "dateGetTime (date a) = Some t1" "dateGetTime (date b) = Some t2"
    and le: "t1 < t2 \<or> (t1 = t2 \<and> localeCompare (time a) (time b) \<le> 0)"
    by (auto simp: dateTimeLe_def split: option.splits)
  obtain ma where ma: "timeMinutes (time a) = Some ma"
    using isClockTime_minutes [OF assms(1)] by blast
  obtain mb where mb: "timeMinutes (time b) = Some mb"
    using isClockTime_minutes [OF assms(2)] by blast
  have "t1 < t2 \<or> (t1 = t2 \<and> ma \<le> mb)"
  proof (cases "t1 < t2")
    case True
    then show ?thesis by simp
  next
    case False
    then have eq: "t1 = t2" and lc: "localeCompare (time a) (time b) \<le> 0" using le by simp_all
    obtain m n where "timeMinutes (time a) = Some m" "timeMinutes (time b) = Some n" "m \<le> n"
      using clock_order [OF assms(1,2) lc] by blast
    then show ?thesis using eq ma mb by simp
  qed
  then show ?thesis using t ma mb by (simp add: dateMinutesLe_def)
qed

text \<open>
  Claim C2 says that the visible list is ordered by date and then by the minutes since
  midnight of the time, so that \<open>9:00\<close> comes before \<open>10:00\<close>. For two appointments
  of the same day given in that order, the list has \<open>10:00\<close> first.
\<close>

theorem filteredAppointments_order_counterexample:
  "map time (appointments nineAndTen) = [''9:00'', ''10:00''] \<and>
   map time (filteredAppointments nineAndTen ''2025-12-15'') = [''10:00'', ''9:00''] \<and>
   \<not> dateMinutesLe (filteredAppointments nineAndTen ''2025-12-15'' ! 0)
                    (filteredAppointments nineAndTen ''2025-12-15'' ! 1)"
  by code_simp

text \<open>
  A date that cannot be read makes the comparator return \<open>NaN\<close>, which the sort takes
  for equal: with an appointment without date between two others, the list stays as it
  was given, the later date before the earlier. Hence the condition on the dates below.
\<close>

lemma without_date_order:
  "map date (filteredAppointments withoutDate ''2025-12-15'') = [''2025-12-18'', [], ''2025-12-08''] \<and>
   dateBefore (date (filteredAppointments withoutDate ''2025-12-15'' ! 2))
              (date (filteredAppointments withoutDate ''2025-12-15'' ! 0))"
  by code_simp

text \<open>
  Claim C2, amended. Whenever every record of the visible list has a date that can be
  read and a time made of digits and colons, the visible list is ordered by date and
  then by the time strings as \<open>localeCompare\<close> collates them, as text and not as numbers
  (\<open>10:00\<close> before \<open>9:00\<close>, \<open>1:00\<close> before \<open>10:00\<close>): each record of the list is at
  most every later one. When moreover every time of the list is a clock time, two digits
  each for hour and minute, with or without seconds, this is the order by date and then
  by minutes since midnight.
\<close>

theorem filteredAppointments_sorted:
  "(\<forall>apt \<in> set (filteredAppointments v today).
      dateGetTime (date apt) \<noteq> None \<and> isTimeText (time apt)) \<longrightarrow>
     sorted_wrt dateTimeLe (filteredAppointments v today) \<and>
     ((\<forall>apt \<in> set (filteredAppointments v today). isClockTime (time apt)) \<longrightarrow>
        sorted_wrt dateMinutesLe (filteredAppointments v today))"
proof (intro impI conjI)
  assume wf: "\<forall>apt \<in> set (filteredAppointments v today).
                dateGetTime (date apt) \<noteq> None \<and> isTimeText (time apt)"
  then have "\<forall>apt \<in> set (filteredAppointments v today). dateGetTime (date apt) \<noteq> None"
    by blast
  then show lex: "sorted_wrt dateTimeLe (filteredAppointments v today)"
    by (rule sorted_filteredAppointments)
  assume clock: "\<forall>apt \<in> set (filteredAppointments v today). isClockTime (time apt)"
  then have "\<And>a b. a \<in> set (filteredAppointments v today) \<Longrightarrow>
      b \<in> set (filteredAppointments v today) \<Longrightarrow> dateTimeLe a b \<Longrightarrow> dateMinutesLe a b"
    using dateTimeLe_minutes by blast
  then show "sorted_wrt dateMinutesLe (filteredAppointments v today)"
    using lex sorted_wrt_mono_rel [of "filteredAppointments v today" dateTimeLe dateMinutesLe]
    by blast
qed

lemma samples_wellformed:
  "list_all (\<lambda>apt. dateGetTime (date apt) \<noteq> None \<and> isTimeText (time apt))
     (filteredAppointments sampleAll ''2025-12-15'') \<and>
   list_all (\<lambda>apt. isClockTime (time apt)) (filteredAppointments sampleAll ''2025-12-15'') \<and>
   map id' (filteredAppointments sampleAll ''2025-12-15'')
     = [''apt005'', ''apt004'', ''apt001'', ''apt002'', ''apt003''] \<and>
   list_all (\<lambda>apt. dateGetTime (date apt) \<noteq> None \<and> isTimeText (time apt))
     (filteredAppointments withSeconds ''2025-12-15'') \<and>
   list_all (\<lambda>apt. isClockTime (time apt)) (filteredAppointments withSeconds ''2025-12-15'') \<and>
   map time (filteredAppointments withSeconds ''2025-12-15'') = [''09:30'', ''10:00:00''] \<and>
   list_all (\<lambda>apt. dateGetTime (date apt) \<noteq> None \<and> isTimeText (time apt))
     (filteredAppointments nineAndTen ''2025-12-15'')"
  by code_simp

theorem filteredAppointments_sorted_witness:
  "list_all (\<lambda>apt. dateGetTime (date apt) \<noteq> None \<and> isTimeText (time apt))
     (filteredAppointments sampleAll ''2025-12-15'') \<and>
   list_all (\<lambda>apt. isClockTime (time apt)) (filteredAppointments sampleAll ''2025-12-15'') \<and>
   map id' (filteredAppointments sampleAll ''2025-12-15'')
     = [''apt005'', ''apt004'', ''apt001'', ''apt002'', ''apt003''] \<and>
   sorted_wrt dateTimeLe (filteredAppointments sampleAll ''2025-12-15'') \<and>
   sorted_wrt dateMinutesLe (filteredAppointments sampleAll ''2025-12-15'') \<and>
   list_all (\<lambda>apt. dateGetTime (date apt) \<noteq> None \<and> isTimeText (time apt))
     (filteredAppointments withSeconds ''2025-12-15'') \<and>
   list_all (\<lambda>apt. isClockTime (time apt)) (filteredAppointments withSeconds ''2025-12-15'') \<and>
   map time (filteredAppointments withSeconds ''2025-12-15'') = [''09:30'', ''10:00:00''] \<and>
   sorted_wrt dateMinutesLe (filteredAppointments withSeconds ''2025-12-15'') \<and>
   list_all (\<lambda>apt. dateGetTime (date apt) \<noteq> None \<and> isTimeText (time apt))
     (filteredAppointments nineAndTen ''2025-12-15'') \<and>
   sorted_wrt dateTimeLe (filteredAppointments nineAndTen ''2025-12-15'')"
  using filteredAppointments_sorted [of sampleAll "''2025-12-15''"]
    filteredAppointments_sorted [of withSeconds "''2025-12-15''"]
    filteredAppointments_sorted [of nineAndTen "''2025-12-15''"]
    samples_wellformed
  unfolding list_all_iff by blast

section \<open>Day numbers and the calendar\<close>

lemma div_bounds:
  fixes n k :: int
  assumes "0 < k"
  shows "k * (n div k) \<le> n" and "n < k * (n div k) + k"
proof -
  have n: "n = k * (n div k) + n mod k" by simp
  have r: "0 \<le> n mod k" "n mod k < k" using assms by simp_all
  show "k * (n div k) \<le> n" using n r(1) by linarith
  show "n < k * (n div k) + k" using n r(2) by linarith
qed

lemma div_succ:
  fixes n k :: int
  assumes "0 < k"
  shows "(n + 1) div k = n div k + (if (n + 1) mod k = 0 then 1 else 0)"
proof -
  have n: "n = k * (n div k) + n mod k" by simp
  have r: "0 \<le> n mod k" "n mod k < k" using assms by simp_all
  show ?thesis
  proof (cases "n mod k + 1 < k")
    case True
    have eq: "n + 1 = k * (n div k) + (n mod k + 1)" using n by linarith
    have "(n + 1) div k = n div k"
      by (rule int_div_pos_eq [OF eq]) (use r True in linarith)+
    moreover have "(n + 1) mod k = n mod k + 1"
      by (rule int_mod_pos_eq [OF eq]) (use r True in linarith)+
    ultimately show ?thesis using r by simp
  next
    case False
    then have k: "n mod k + 1 = k" using r by linarith
    have "n + 1 = k * (n div k) + k" using n k by linarith
    then have eq: "n + 1 = k * (n div k + 1) + 0" by (simp add: algebra_simps)
    have "(n + 1) div k = n div k + 1"
      by (rule int_div_pos_eq [OF eq]) (use assms in simp_all)
    moreover have "(n + 1) mod k = 0"
      by (rule int_mod_pos_eq [OF eq]) (use assms in simp_all)
    ultimately show ?thesis by simp
  qed
qed

lemma mod_shift: "(y - k * c) mod k = y mod (k::int)"
  by (metis diff_zero mod_diff_right_eq mod_mult_self1_is_0)

lemma mod_400_100: "(y::int) mod 400 = 0 \<Longrightarrow> y mod 100 = 0"
proof -
  assume h: "y mod 400 = 0"
  have "(100::int) dvd 400" by simp
  then have "y mod 400 mod 100 = y mod 100" by (rule mod_mod_cancel)
  then show ?thesis using h by simp
qed

lemma mod_100_4: "(y::int) mod 100 = 0 \<Longrightarrow> y mod 4 = 0"
proof -
  assume h: "y mod 100 = 0"
  have "(4::int) dvd 100" by simp
  then have "y mod 100 mod 4 = y mod 4" by (rule mod_mod_cancel)
  then show ?thesis using h by simp
qed

lemma DayFromYear_Suc: "DayFromYear (y + 1) = DayFromYear y + DaysInYear y"
proof -
  have a: "(y - 1968) div 4 = (y - 1969) div 4 + (if y mod 4 = 0 then 1 else 0)"
    using div_succ [of 4 "y - 1969"] mod_shift [of y 4 492] by simp
  have b: "(y - 1900) div 100 = (y - 1901) div 100 + (if y mod 100 = 0 then 1 else 0)"
    using div_succ [of 100 "y - 1901"] mod_shift [of y 100 19] by simp
  have c: "(y - 1600) div 400 = (y - 1601) div 400 + (if y mod 400 = 0 then 1 else 0)"
    using div_succ [of 400 "y - 1601"] mod_shift [of y 400 4] by simp
  have "DayFromYear (y + 1) =
          365 * (y - 1969) + (y - 1968) div 4 - (y - 1900) div 100 + (y - 1600) div 400"
    by (simp add: DayFromYear_def)
  also have "\<dots> = 365 * (y - 1969) + ((y - 1969) div 4 + (if y mod 4 = 0 then 1 else 0))
                 - ((y - 1901) div 100 + (if y mod 100 = 0 then 1 else 0))
                 + ((y - 1601) div 400 + (if y mod 400 = 0 then 1 else 0))"
    by (simp only: a b c)
  also have "\<dots> = DayFromYear y + DaysInYear y"
  proof -
    define p where "p = (y - 1969) div 4"
    define q where "q = (y - 1901) div 100"
    define r where "r = (y - 1601) div 400"
    consider "y mod 4 \<noteq> 0" | "y mod 4 = 0" "y mod 100 \<noteq> 0"
      | "y mod 4 = 0" "y mod 100 = 0" "y mod 400 \<noteq> 0" | "y mod 4 = 0" "y mod 100 = 0" "y mod 400 = 0"
      by argo
    then show ?thesis
    proof cases
      case 1
      then have "y mod 100 \<noteq> 0" using mod_100_4 [of y] by auto
      then have "y mod 400 \<noteq> 0" using mod_400_100 [of y] by auto
      note \<open>y mod 100 \<noteq> 0\<close> this
      then show ?thesis using 1 by (simp add: DayFromYear_def DaysInYear_def)
    next
      case 2
      then have "y mod 400 \<noteq> 0" using mod_400_100 [of y] by auto
      then show ?thesis using 2 by (simp add: DayFromYear_def DaysInYear_def)
    next
      case 3
      then show ?thesis by (simp add: DayFromYear_def DaysInYear_def)
    next
      case 4
      then show ?thesis by (simp add: DayFromYear_def DaysInYear_def)
    qed
  qed
  finally show ?thesis .
qed

lemma DayFromYear_bounds:
  "146097 * y \<le> 400 * DayFromYear y + 287811596"
  "400 * DayFromYear y + 287810501 \<le> 146097 * y"
proof -
  define p where "p = (y - 1969) div 4"
  define q where "q = (y - 1901) div 100"
  define r where "r = (y - 1601) div 400"
  have p: "4 * p \<le> y - 1969" "y - 1969 < 4 * p + 4"
    using div_bounds [of 4 "y - 1969"] by (simp_all add: p_def)
  have q: "100 * q \<le> y - 1901" "y - 1901 < 100 * q + 100"
    using div_bounds [of 100 "y - 1901"] by (simp_all add: q_def)
  have r: "400 * r \<le> y - 1601" "y - 1601 < 400 * r + 400"
    using div_bounds [of 400 "y - 1601"] by (simp_all add: r_def)
  have d: "DayFromYear y = 365 * y - 719050 + p - q + r"
    by (simp add: DayFromYear_def p_def q_def r_def)
  show "146097 * y \<le> 400 * DayFromYear y + 287811596"
    using d p q r by linarith
  show "400 * DayFromYear y + 287810501 \<le> 146097 * y"
    using d p q r by linarith
qed

lemma DaysInYear_range: "DaysInYear y = 365 \<or> DaysInYear y = 366"
  by (simp add: DaysInYear_def)

lemma DayFromYear_less:
  assumes "y < y'"
  shows "DayFromYear y < DayFromYear y'"
proof -
  have "DayFromYear y < DayFromYear (y + int n + 1)" for n
  proof (induction n)
    case 0
    then show ?case using DayFromYear_Suc [of y] DaysInYear_range [of y] by auto
  next
    case (Suc n)
    have "DayFromYear (y + int (Suc n) + 1) = DayFromYear (y + int n + 1) + DaysInYear (y + int n + 1)"
      using DayFromYear_Suc [of "y + int n + 1"] by (simp add: add.commute add.left_commute)
    then show ?case using Suc DaysInYear_range [of "y + int n + 1"] by linarith
  qed
  from this [of "nat (y' - y - 1)"] show ?thesis using assms by simp
qed

lemma YearFromDay_bounds:
  "DayFromYear (YearFromDay d) \<le> d \<and> d < DayFromYear (YearFromDay d + 1)"
proof -
  define q where "q = (400 * d) div 146097"
  have q: "146097 * q \<le> 400 * d" "400 * d < 146097 * q + 146097"
    using div_bounds [of 146097 "400 * d"] by (simp_all add: q_def)
  have "400 * DayFromYear (1970 + q - 1) + 287810501 \<le> 146097 * q + 287664993"
    using DayFromYear_bounds(2) [of "1970 + q - 1"] by (simp add: algebra_simps)
  then have lo: "DayFromYear (1970 + q - 1) \<le> d"
    using q by linarith
  have "146097 * q + 288103284 \<le> 400 * DayFromYear (1970 + q + 2) + 287811596"
    using DayFromYear_bounds(1) [of "1970 + q + 2"] by (simp add: algebra_simps)
  then have hi: "d < DayFromYear (1970 + q + 2)"
    using q by linarith
  have eq: "YearFromDay d =
      (if DayFromYear (1970 + q + 1) \<le> d then 1970 + q + 1
       else if DayFromYear (1970 + q) \<le> d then 1970 + q else 1970 + q - 1)"
    by (simp add: YearFromDay_def q_def Let_def)
  show ?thesis
  proof (cases "DayFromYear (1970 + q + 1) \<le> d")
    case True
    then show ?thesis using eq hi by (simp add: add.commute add.left_commute)
  next
    case False
    show ?thesis
    proof (cases "DayFromYear (1970 + q) \<le> d")
      case True
      then show ?thesis using eq False by simp
    next
      case c: False
      then show ?thesis using eq False lo by simp
    qed
  qed
qed

lemma YearFromDay_unique:
  assumes "DayFromYear y \<le> d" and "d < DayFromYear (y + 1)"
  shows "YearFromDay d = y"
proof (rule ccontr)
  assume ne: "YearFromDay d \<noteq> y"
  have b: "DayFromYear (YearFromDay d) \<le> d" "d < DayFromYear (YearFromDay d + 1)"
    using YearFromDay_bounds [of d] by simp_all
  show False
  proof (cases "YearFromDay d < y")
    case True
    then have "YearFromDay d + 1 \<le> y" by simp
    then have "DayFromYear (YearFromDay d + 1) \<le> DayFromYear y"
      using DayFromYear_less [of "YearFromDay d + 1" y] by (cases "YearFromDay d + 1 = y") auto
    then show False using b(2) assms(1) by linarith
  next
    case False
    then have "y + 1 \<le> YearFromDay d" using ne by simp
    then have "DayFromYear (y + 1) \<le> DayFromYear (YearFromDay d)"
      using DayFromYear_less [of "y + 1" "YearFromDay d"] by (cases "y + 1 = YearFromDay d") auto
    then show False using b(1) assms(2) by linarith
  qed
qed

lemma InLeapYear_iff: "InLeapYear y = isLeapYear y"
  using mod_400_100 [of y] mod_100_4 [of y]
  by (auto simp: InLeapYear_def DaysInYear_def isLeapYear_def)

lemma DaysInYear_leap: "DaysInYear y = (if isLeapYear y then 366 else 365)"
  using InLeapYear_iff [of y] DaysInYear_range [of y] by (auto simp: InLeapYear_def)

lemma YearFromDay_within:
  assumes "0 \<le> k" and "k < DaysInYear y"
  shows "YearFromDay (DayFromYear y + k) = y"
  using assms DayFromYear_Suc [of y] by (intro YearFromDay_unique) linarith+

lemma month_cases:
  assumes "0 \<le> m" and "m \<le> (11::int)"
  obtains "m = 0" | "m = 1" | "m = 2" | "m = 3" | "m = 4" | "m = 5"
    | "m = 6" | "m = 7" | "m = 8" | "m = 9" | "m = 10" | "m = 11"
  using assms by atomize_elim arith

lemma monthStart_next:
  assumes "0 \<le> m" and "m \<le> 10"
  shows "monthStart (isLeapYear y) (m + 1) = monthStart (isLeapYear y) m + monthLength y m"
proof -
  from assms have "0 \<le> m" "m \<le> 11" by simp_all
  then show ?thesis
    using assms by (cases rule: month_cases) (simp_all add: monthStart_def monthLength_def)
qed

lemma monthStart_last:
  "monthStart (isLeapYear y) 11 + monthLength y 11 = DaysInYear y"
  by (simp add: monthStart_def monthLength_def DaysInYear_leap)

lemma monthLength_range: "28 \<le> monthLength y m \<and> monthLength y m \<le> 31"
  by (simp add: monthLength_def)

lemma monthStart_range:
  assumes "0 \<le> m" and "m \<le> 11"
  shows "0 \<le> monthStart (isLeapYear y) m \<and>
         monthStart (isLeapYear y) m + monthLength y m \<le> DaysInYear y"
  using assms
  by (cases rule: month_cases) (simp_all add: monthStart_def monthLength_def DaysInYear_leap)

lemma MakeDay_plain:
  assumes "0 \<le> m" and "m \<le> 11"
  shows "MakeDay y m dd = DayFromYear y + monthStart (isLeapYear y) m + dd - 1"
proof -
  have "m div 12 = 0" "m mod 12 = m" using assms by simp_all
  then show ?thesis by (simp add: MakeDay_def InLeapYear_iff)
qed

lemma MonthFromDay_table:
  assumes m: "0 \<le> m" "m \<le> 11"
    and "YearFromDay d = y"
    and "monthStart (isLeapYear y) m \<le> DayWithinYear d"
    and "DayWithinYear d < monthStart (isLeapYear y) m + monthLength y m"
  shows "MonthFromDay d = m"
  using m
proof (cases rule: month_cases)
  case 1 then show ?thesis using assms(3-)
    by (auto simp: MonthFromDay_def Let_def InLeapYear_iff monthStart_def monthLength_def split: if_splits)
next
  case 2 then show ?thesis using assms(3-)
    by (auto simp: MonthFromDay_def Let_def InLeapYear_iff monthStart_def monthLength_def split: if_splits)
next
  case 3 then show ?thesis using assms(3-)
    by (auto simp: MonthFromDay_def Let_def InLeapYear_iff monthStart_def monthLength_def split: if_splits)
next
  case 4 then show ?thesis using assms(3-)
    by (auto simp: MonthFromDay_def Let_def InLeapYear_iff monthStart_def monthLength_def split: if_splits)
next
  case 5 then show ?thesis using assms(3-)
    by (auto simp: MonthFromDay_def Let_def InLeapYear_iff monthStart_def monthLength_def split: if_splits)
next
  case 6 then show ?thesis using assms(3-)
    by (auto simp: MonthFromDay_def Let_def InLeapYear_iff monthStart_def monthLength_def split: if_splits)
next
  case 7 then show ?thesis using assms(3-)
    by (auto simp: MonthFromDay_def Let_def InLeapYear_iff monthStart_def monthLength_def split: if_splits)
next
  case 8 then show ?thesis using assms(3-)
    by (auto simp: MonthFromDay_def Let_def InLeapYear_iff monthStart_def monthLength_def split: if_splits)
next
  case 9 then show ?thesis using assms(3-)
    by (auto simp: MonthFromDay_def Let_def InLeapYear_iff monthStart_def monthLength_def split: if_splits)
next
  case 10 then show ?thesis using assms(3-)
    by (auto simp: MonthFromDay_def Let_def InLeapYear_iff monthStart_def monthLength_def split: if_splits)
next
  case 11 then show ?thesis using assms(3-)
    by (auto simp: MonthFromDay_def Let_def InLeapYear_iff monthStart_def monthLength_def split: if_splits)
next
  case 12 then show ?thesis using assms(3-)
    by (auto simp: MonthFromDay_def Let_def InLeapYear_iff monthStart_def monthLength_def split: if_splits)
qed

lemma civil_of_MakeDay:
  assumes m: "0 \<le> m" "m \<le> 11" and dd: "1 \<le> dd" "dd \<le> monthLength y m"
  shows "YearFromDay (MakeDay y m dd) = y"
    and "MonthFromDay (MakeDay y m dd) = m"
    and "DateFromDay (MakeDay y m dd) = dd"
proof -
  define k where "k = monthStart (isLeapYear y) m + dd - 1"
  have day: "MakeDay y m dd = DayFromYear y + k"
    using MakeDay_plain [OF m] by (simp add: k_def)
  have k: "0 \<le> k" "k < DaysInYear y"
    using monthStart_range [OF m, of y] dd by (simp_all add: k_def)
  show yr: "YearFromDay (MakeDay y m dd) = y"
    unfolding day using k by (rule YearFromDay_within)
  have dw: "DayWithinYear (MakeDay y m dd) = k"
    using yr by (simp add: DayWithinYear_def day)
  show mo: "MonthFromDay (MakeDay y m dd) = m"
    using m yr by (rule MonthFromDay_table) (use dd in \<open>simp_all add: dw k_def\<close>)
  show "DateFromDay (MakeDay y m dd) = dd"
    by (simp add: DateFromDay_def dw yr mo InLeapYear_iff k_def)
qed

lemma MakeDay_next_month_zero:
  assumes "0 \<le> m" and "m \<le> 11"
  shows "MakeDay y (m + 1) 0 = MakeDay y m (monthLength y m)"
proof (cases "m = 11")
  case True
  have "(12::int) div 12 = 1" "(12::int) mod 12 = 0" by simp_all
  then have "MakeDay y 12 0 = DayFromYear (y + 1) - 1"
    by (simp add: MakeDay_def monthStart_def)
  also have "\<dots> = DayFromYear y + DaysInYear y - 1"
    by (simp add: DayFromYear_Suc)
  also have "\<dots> = MakeDay y 11 (monthLength y 11)"
    using MakeDay_plain [of 11 y "monthLength y 11"] monthStart_last [of y] by simp
  finally show ?thesis using True by simp
next
  case False
  then have m: "0 \<le> m" "m \<le> 10" using assms by simp_all
  have "MakeDay y (m + 1) 0 = DayFromYear y + monthStart (isLeapYear y) (m + 1) + 0 - 1"
    using m by (intro MakeDay_plain) simp_all
  also have "\<dots> = DayFromYear y + monthStart (isLeapYear y) m + monthLength y m - 1"
    using monthStart_next [OF m, of y] by simp
  also have "\<dots> = MakeDay y m (monthLength y m)"
    using MakeDay_plain [OF assms, of y "monthLength y m"] by simp
  finally show ?thesis .
qed

lemma daysInMonth_correct:
  assumes "0 \<le> m" and "m \<le> 11"
  shows "DateFromDay (MakeDay y (m + 1) 0) = monthLength y m"
  unfolding MakeDay_next_month_zero [OF assms]
  using monthLength_range [of y m] by (intro civil_of_MakeDay(3) assms) simp_all

lemma DayWithinYear_range: "0 \<le> DayWithinYear d \<and> DayWithinYear d < DaysInYear (YearFromDay d)"
  using YearFromDay_bounds [of d] DayFromYear_Suc [of "YearFromDay d"]
  by (simp add: DayWithinYear_def)

lemma MonthFromDay_range: "0 \<le> MonthFromDay d \<and> MonthFromDay d \<le> 11"
  by (simp add: MonthFromDay_def Let_def)

lemma DateFromDay_range:
  "1 \<le> DateFromDay d \<and> DateFromDay d \<le> monthLength (YearFromDay d) (MonthFromDay d)"
  using DayWithinYear_range [of d]
  by (auto simp: DateFromDay_def MonthFromDay_def Let_def InLeapYear_iff monthStart_def
        monthLength_def DaysInYear_leap split: if_splits)

lemma MakeDay_of_civil:
  "MakeDay (YearFromDay d) (MonthFromDay d) (DateFromDay d) = d"
  using MakeDay_plain [of "MonthFromDay d" "YearFromDay d" "DateFromDay d"] MonthFromDay_range [of d]
  by (simp add: DateFromDay_def DayWithinYear_def InLeapYear_iff)

text \<open>
  The day numbers count the days of the calendar one by one: day 0 is the first of
  January 1970, a Thursday; the day after a date has the next number, and the first of a
  month follows the last day of the month before (January follows December).
\<close>

lemma MakeDay_next_day: "MakeDay y m (dd + 1) = MakeDay y m dd + 1"
  by (simp add: MakeDay_def Let_def)

lemma MakeDay_consecutive:
  "MakeDay 1970 0 1 = 0"
  "0 \<le> m \<Longrightarrow> m \<le> 11 \<Longrightarrow> MakeDay y (m + 1) 1 = MakeDay y m (monthLength y m) + 1"
proof -
  show "MakeDay 1970 0 1 = 0"
    by (simp add: MakeDay_def DayFromYear_def monthStart_def)
  show "MakeDay y (m + 1) 1 = MakeDay y m (monthLength y m) + 1" if "0 \<le> m" "m \<le> 11"
    using MakeDay_next_day [of y "m + 1" 0] MakeDay_next_month_zero [OF that, of y] by simp
qed

lemma WeekDay_next: "WeekDay 0 = 4" "WeekDay (d + 1) = (WeekDay d + 1) mod 7"
  by (simp_all add: WeekDay_def mod_simps add.commute add.left_commute)

lemma changeMonth_december:
  assumes "MonthFromDay d = 11"
  shows "YearFromDay (setMonth d (MonthFromDay d + 1)) = YearFromDay d + 1"
    and "MonthFromDay (setMonth d (MonthFromDay d + 1)) = 0"
    and "DateFromDay (setMonth d (MonthFromDay d + 1)) = DateFromDay d"
proof -
  have dd: "1 \<le> DateFromDay d" "DateFromDay d \<le> 31"
    using DateFromDay_range [of d] monthLength_range [of "YearFromDay d" "MonthFromDay d"] by simp_all
  have "(12::int) div 12 = 1" "(12::int) mod 12 = 0" by simp_all
  then have "MakeDay (YearFromDay d) 12 (DateFromDay d)
               = DayFromYear (YearFromDay d + 1) + DateFromDay d - 1"
    by (simp add: MakeDay_def monthStart_def)
  also have "\<dots> = MakeDay (YearFromDay d + 1) 0 (DateFromDay d)"
    using MakeDay_plain [of 0 "YearFromDay d + 1" "DateFromDay d"] by (simp add: monthStart_def)
  finally have eq: "setMonth d (MonthFromDay d + 1) = MakeDay (YearFromDay d + 1) 0 (DateFromDay d)"
    using assms by (simp add: setMonth_def)
  have len: "DateFromDay d \<le> monthLength (YearFromDay d + 1) 0"
    using dd by (simp add: monthLength_def)
  show "YearFromDay (setMonth d (MonthFromDay d + 1)) = YearFromDay d + 1"
    unfolding eq using dd(1) len by (intro civil_of_MakeDay(1)) simp_all
  show "MonthFromDay (setMonth d (MonthFromDay d + 1)) = 0"
    unfolding eq using dd(1) len by (intro civil_of_MakeDay(2)) simp_all
  show "DateFromDay (setMonth d (MonthFromDay d + 1)) = DateFromDay d"
    unfolding eq using dd(1) len by (intro civil_of_MakeDay(3)) simp_all
qed

lemma changeMonth_january:
  assumes "MonthFromDay d = 0"
  shows "YearFromDay (setMonth d (MonthFromDay d + (-1))) = YearFromDay d - 1"
    and "MonthFromDay (setMonth d (MonthFromDay d + (-1))) = 11"
    and "DateFromDay (setMonth d (MonthFromDay d + (-1))) = DateFromDay d"
proof -
  have dd: "1 \<le> DateFromDay d" "DateFromDay d \<le> 31"
    using DateFromDay_range [of d] monthLength_range [of "YearFromDay d" "MonthFromDay d"] by simp_all
  have "(-1::int) div 12 = -1" "(-1::int) mod 12 = 11" by simp_all
  then have "MakeDay (YearFromDay d) (-1) (DateFromDay d)
               = DayFromYear (YearFromDay d - 1) + monthStart (isLeapYear (YearFromDay d - 1)) 11
                   + DateFromDay d - 1"
    by (simp add: MakeDay_def Let_def InLeapYear_iff)
  also have "\<dots> = MakeDay (YearFromDay d - 1) 11 (DateFromDay d)"
    using MakeDay_plain [of 11 "YearFromDay d - 1" "DateFromDay d"] by simp
  finally have eq: "setMonth d (MonthFromDay d + (-1)) = MakeDay (YearFromDay d - 1) 11 (DateFromDay d)"
    using assms by (simp add: setMonth_def)
  have len: "DateFromDay d \<le> monthLength (YearFromDay d - 1) 11"
    using dd by (simp add: monthLength_def)
  show "YearFromDay (setMonth d (MonthFromDay d + (-1))) = YearFromDay d - 1"
    unfolding eq using dd(1) len by (intro civil_of_MakeDay(1)) simp_all
  show "MonthFromDay (setMonth d (MonthFromDay d + (-1))) = 11"
    unfolding eq using dd(1) len by (intro civil_of_MakeDay(2)) simp_all
  show "DateFromDay (setMonth d (MonthFromDay d + (-1))) = DateFromDay d"
    unfolding eq using dd(1) len by (intro civil_of_MakeDay(3)) simp_all
qed

lemma digitVal_char_of: "k < 10 \<Longrightarrow> digitVal (char_of (48 + k)) = Some k"
  by (simp add: digitVal_def Let_def)

lemma parseDigitsAcc_append:
  "parseDigitsAcc acc (xs @ ys) =
     (case parseDigitsAcc acc xs of None \<Rightarrow> None | Some a \<Rightarrow> parseDigitsAcc a ys)"
  by (induction xs arbitrary: acc) (auto split: option.splits)

lemma parseDigitsAcc_natToString: "parseDigitsAcc 0 (natToString n) = Some n"
proof (induction n rule: natToString.induct)
  case (1 n)
  show ?case
  proof (cases "n < 10")
    case True
    then show ?thesis
      by (subst natToString.simps) (simp add: digitVal_char_of)
  next
    case False
    have "n mod 10 < 10" by simp
    then have d: "digitVal (char_of (48 + n mod 10)) = Some (n mod 10)"
      by (rule digitVal_char_of)
    have "parseDigitsAcc 0 (natToString (n div 10)) = Some (n div 10)"
      using 1 False by simp
    then show ?thesis
      using False d by (subst natToString.simps) (simp add: parseDigitsAcc_append)
  qed
qed

lemma natToString_one: "n < 10 \<Longrightarrow> natToString n = [char_of (48 + n)]"
  by (subst natToString.simps) simp

lemma natToString_two:
  "10 \<le> n \<Longrightarrow> n < 100 \<Longrightarrow> natToString n = [char_of (48 + n div 10), char_of (48 + n mod 10)]"
  by (subst natToString.simps) (simp add: natToString_one)

lemma natToString_three:
  "100 \<le> n \<Longrightarrow> n < 1000 \<Longrightarrow> length (natToString n) = 3"
  by (subst natToString.simps) (simp add: natToString_two)

lemma natToString_four:
  "1000 \<le> n \<Longrightarrow> n < 10000 \<Longrightarrow> length (natToString n) = 4"
  by (subst natToString.simps) (simp add: natToString_three)

lemma pad2:
  assumes "n < 100"
  shows "length (padStart 2 CHR ''0'' (natToString n)) = 2"
    and "parseDigits (padStart 2 CHR ''0'' (natToString n)) = Some n"
proof -
  have zero: "digitVal CHR ''0'' = Some 0" by (simp add: digitVal_def)
  show "length (padStart 2 CHR ''0'' (natToString n)) = 2"
    using assms by (cases "n < 10") (simp_all add: padStart_def natToString_one natToString_two)
  show "parseDigits (padStart 2 CHR ''0'' (natToString n)) = Some n"
  proof (cases "n < 10")
    case True
    then have "padStart 2 CHR ''0'' (natToString n) = CHR ''0'' # natToString n"
      by (simp add: padStart_def natToString_one)
    then show ?thesis using parseDigitsAcc_natToString [of n] zero
      by (simp add: parseDigits_def)
  next
    case False
    then have "padStart 2 CHR ''0'' (natToString n) = natToString n"
      using assms by (simp add: padStart_def natToString_two)
    moreover have "natToString n \<noteq> []" using False assms by (simp add: natToString_two)
    ultimately show ?thesis using parseDigitsAcc_natToString [of n]
      by (simp add: parseDigits_def)
  qed
qed

lemma dateStr_parses:
  assumes y: "1000 \<le> y" "y \<le> 9999" and m: "0 \<le> m" "m \<le> 11" and dd: "1 \<le> dd" "dd \<le> 31"
  shows "parseIsoDate (intToString y @ ''-'' @ padStart 2 CHR ''0'' (intToString (m + 1))
                         @ ''-'' @ padStart 2 CHR ''0'' (intToString dd)) = Some (y, m + 1, dd)"
proof -
  define Y where "Y = natToString (nat y)"
  define M where "M = padStart 2 CHR ''0'' (natToString (nat (m + 1)))"
  define D where "D = padStart 2 CHR ''0'' (natToString (nat dd))"
  have iy: "intToString y = Y" using y by (simp add: intToString_def Y_def)
  have im: "padStart 2 CHR ''0'' (intToString (m + 1)) = M" using m by (simp add: intToString_def M_def)
  have id: "padStart 2 CHR ''0'' (intToString dd) = D" using dd by (simp add: intToString_def D_def)
  have lY: "length Y = 4" unfolding Y_def using y by (intro natToString_four) simp_all
  have lM: "length M = 2" unfolding M_def using m by (intro pad2(1)) simp
  have lD: "length D = 2" unfolding D_def using dd by (intro pad2(1)) simp
  have pY: "parseDigits Y = Some (nat y)"
    using parseDigitsAcc_natToString [of "nat y"] lY by (auto simp: parseDigits_def Y_def)
  have pM: "parseDigits M = Some (nat (m + 1))" unfolding M_def using m by (intro pad2(2)) simp
  have pD: "parseDigits D = Some (nat dd)" unfolding D_def using dd by (intro pad2(2)) simp
  let ?s = "Y @ ''-'' @ M @ ''-'' @ D"
  have len: "length ?s = 10" using lY lM lD by simp
  have s4: "?s ! 4 = CHR ''-''" using lY by (simp add: nth_append)
  have s7: "?s ! 7 = CHR ''-''" using lY lM by (simp add: nth_append)
  have t4: "take 4 ?s = Y" using lY by simp
  have t5: "take 2 (drop 5 ?s) = M" using lY lM by simp
  have t8: "drop 8 ?s = D" using lY lM by simp
  have "parseIsoDate ?s = Some (y, m + 1, dd)"
    unfolding parseIsoDate_def len s4 s7 t4 t5 t8 pY pM pD
    using y m dd by (simp; linarith)
  then show ?thesis by (simp only: iy im id)
qed

lemma WeekDay_range: "0 \<le> WeekDay d \<and> WeekDay d \<le> 6"
  by (simp add: WeekDay_def)

lemma calendarDays_eq:
  assumes "YearFromDay (currentMonth v) = y" and "MonthFromDay (currentMonth v) = m"
    and "\<not> (0 \<le> y \<and> y \<le> 99)"
  shows "calendarDays v =
           replicate (nat (WeekDay (MakeDay y m 1))) None @
           map (\<lambda>dy. Some \<lparr> day = dy,
                      dateStr = intToString y @ ''-'' @ padStart 2 CHR ''0'' (intToString (m + 1))
                                  @ ''-'' @ padStart 2 CHR ''0'' (intToString dy),
                      hasAppointments =
                        list_ex (\<lambda>apt. date apt = intToString y @ ''-''
                                   @ padStart 2 CHR ''0'' (intToString (m + 1))
                                   @ ''-'' @ padStart 2 CHR ''0'' (intToString dy)) (appointments v),
                      appointments_d =
                        filter (\<lambda>apt. date apt = intToString y @ ''-''
                                  @ padStart 2 CHR ''0'' (intToString (m + 1))
                                  @ ''-'' @ padStart 2 CHR ''0'' (intToString dy)) (appointments v) \<rparr>)
               [1..monthLength y m]"
proof -
  have m: "0 \<le> m" "m \<le> 11" using MonthFromDay_range [of "currentMonth v"] assms(2) by simp_all
  have n1: "newDate y m 1 = MakeDay y m 1" and n2: "newDate y (m + 1) 0 = MakeDay y (m + 1) 0"
    using assms(3) by (auto simp: newDate_def)
  have "DateFromDay (newDate y (m + 1) 0) = monthLength y m"
    unfolding n2 using m by (rule daysInMonth_correct)
  then show ?thesis
    using assms(1,2) n1 by (simp add: calendarDays_def Let_def)
qed


lemma nth_upto_one:
  assumes "1 \<le> dy" and "dy \<le> L"
  shows "[1..L] ! (nat dy - 1) = dy" and "nat dy - 1 < length [1..L]"
proof -
  have "1 + int (nat dy - 1) \<le> L" using assms by simp
  then have "[1..L] ! (nat dy - 1) = 1 + int (nat dy - 1)" by (rule nth_upto)
  then show "[1..L] ! (nat dy - 1) = dy" using assms by simp
  show "nat dy - 1 < length [1..L]" using assms by simp
qed

text \<open>
  Claim C8. Let the visible month be month \<open>m\<close> (0 = January) of year \<open>y\<close>, a year of
  four digits. The calendar consists of as many empty slots as the weekday index of the
  first of the month (0 = Sunday), followed by one entry for each day from 1 to the
  length of the month (28, 29 in a leap year's February, 30 or 31). The entry of day
  \<open>dy\<close> carries that number, a date string that reads as year \<open>y\<close>, month \<open>m + 1\<close>,
  day \<open>dy\<close>, a flag that is true exactly when some appointment has that date string, and
  the appointments with that date string, in their order. One month forward from a
  December shows January of the next year, one month back from a January shows December
  of the year before.
\<close>

theorem calendarDays_month:
  assumes "YearFromDay (currentMonth v) = y" and "MonthFromDay (currentMonth v) = m"
    and "1000 \<le> y" and "y \<le> 9999"
  shows "length (calendarDays v) = nat (WeekDay (MakeDay y m 1)) + nat (monthLength y m) \<and>
         (\<forall>i < nat (WeekDay (MakeDay y m 1)). calendarDays v ! i = None) \<and>
         (\<forall>dy. 1 \<le> dy \<and> dy \<le> monthLength y m \<longrightarrow>
            (\<exists>e. calendarDays v ! (nat (WeekDay (MakeDay y m 1)) + (nat dy - 1)) = Some e \<and>
                 day e = dy \<and>
                 parseIsoDate (dateStr e) = Some (y, m + 1, dy) \<and>
                 (hasAppointments e \<longleftrightarrow> (\<exists>apt \<in> set (appointments v). date apt = dateStr e)) \<and>
                 appointments_d e = filter (\<lambda>apt. date apt = dateStr e) (appointments v))) \<and>
         (m = 11 \<longrightarrow> YearFromDay (currentMonth (changeMonth v 1)) = y + 1 \<and>
                     MonthFromDay (currentMonth (changeMonth v 1)) = 0) \<and>
         (m = 0 \<longrightarrow> YearFromDay (currentMonth (changeMonth v (- 1))) = y - 1 \<and>
                    MonthFromDay (currentMonth (changeMonth v (- 1))) = 11)"
proof (intro conjI allI impI)
  let ?n = "nat (WeekDay (MakeDay y m 1))"
  let ?L = "monthLength y m"
  let ?str = "\<lambda>dy. intToString y @ ''-'' @ padStart 2 CHR ''0'' (intToString (m + 1))
                   @ ''-'' @ padStart 2 CHR ''0'' (intToString dy)"
  let ?f = "\<lambda>dy. Some \<lparr> day = dy, dateStr = ?str dy,
                 hasAppointments = list_ex (\<lambda>apt. date apt = ?str dy) (appointments v),
                 appointments_d = filter (\<lambda>apt. date apt = ?str dy) (appointments v) \<rparr>"
  have m: "0 \<le> m" "m \<le> 11" using MonthFromDay_range [of "currentMonth v"] assms(2) by simp_all
  have eq: "calendarDays v = replicate ?n None @ map ?f [1..?L]"
    using assms by (intro calendarDays_eq) simp_all
  have L: "0 \<le> ?L" using monthLength_range [of y m] by simp
  show "length (calendarDays v) = ?n + nat ?L"
    unfolding eq using L by simp
  show "calendarDays v ! i = None" if "i < ?n" for i
    unfolding eq using that by (simp add: nth_append)
  show "\<exists>e. calendarDays v ! (?n + (nat dy - 1)) = Some e \<and> day e = dy \<and>
            parseIsoDate (dateStr e) = Some (y, m + 1, dy) \<and>
            (hasAppointments e \<longleftrightarrow> (\<exists>apt \<in> set (appointments v). date apt = dateStr e)) \<and>
            appointments_d e = filter (\<lambda>apt. date apt = dateStr e) (appointments v)"
    if dy: "1 \<le> dy \<and> dy \<le> ?L" for dy
  proof -
    have idx: "[1..?L] ! (nat dy - 1) = dy" "nat dy - 1 < length [1..?L]"
      using nth_upto_one [of dy ?L] dy by simp_all
    have "calendarDays v ! (?n + (nat dy - 1)) = map ?f [1..?L] ! (nat dy - 1)"
      unfolding eq by (simp add: nth_append)
    also have "\<dots> = ?f dy" using idx by (simp del: upto.simps)
    finally have at: "calendarDays v ! (?n + (nat dy - 1)) = ?f dy" .
    have "dy \<le> 31" using dy monthLength_range [of y m] by linarith
    then have "parseIsoDate (?str dy) = Some (y, m + 1, dy)"
      using assms(3,4) m dy by (intro dateStr_parses) simp_all
    then show ?thesis unfolding at by (simp add: list_ex_iff)
  qed
  show "YearFromDay (currentMonth (changeMonth v 1)) = y + 1" if "m = 11"
    using changeMonth_december(1) [of "currentMonth v"] that assms(1,2) by (simp add: changeMonth_def)
  show "MonthFromDay (currentMonth (changeMonth v 1)) = 0" if "m = 11"
    using changeMonth_december(2) [of "currentMonth v"] that assms(1,2) by (simp add: changeMonth_def)
  show "YearFromDay (currentMonth (changeMonth v (- 1))) = y - 1" if "m = 0"
    using changeMonth_january(1) [of "currentMonth v"] that assms(1,2) by (simp add: changeMonth_def)
  show "MonthFromDay (currentMonth (changeMonth v (- 1))) = 11" if "m = 0"
    using changeMonth_january(2) [of "currentMonth v"] that assms(1,2) by (simp add: changeMonth_def)
qed

lemma sample_months:
  "YearFromDay (currentMonth sampleView) = 2025 \<and> MonthFromDay (currentMonth sampleView) = 11 \<and>
   WeekDay (MakeDay 2025 11 1) = 1 \<and> monthLength 2025 11 = 31 \<and>
   YearFromDay (currentMonth february2024) = 2024 \<and> MonthFromDay (currentMonth february2024) = 1 \<and>
   WeekDay (MakeDay 2024 1 1) = 4 \<and> monthLength 2024 1 = 29 \<and>
   YearFromDay (currentMonth june2025) = 2025 \<and> MonthFromDay (currentMonth june2025) = 5 \<and>
   WeekDay (MakeDay 2025 5 1) = 0 \<and> monthLength 2025 5 = 30 \<and>
   YearFromDay (currentMonth (changeMonth sampleView 1)) = 2026 \<and>
   MonthFromDay (currentMonth (changeMonth sampleView 1)) = 0"
  by code_simp

theorem calendarDays_month_witness:
  "YearFromDay (currentMonth sampleView) = 2025 \<and> MonthFromDay (currentMonth sampleView) = 11 \<and>
   length (calendarDays sampleView) = 1 + 31 \<and>
   calendarDays sampleView ! 0 = None \<and>
   (\<exists>e. calendarDays sampleView ! 15 = Some e \<and> day e = 15 \<and>
        parseIsoDate (dateStr e) = Some (2025, 12, 15) \<and>
        (hasAppointments e \<longleftrightarrow> (\<exists>apt \<in> set (appointments sampleView). date apt = dateStr e)) \<and>
        appointments_d e = filter (\<lambda>apt. date apt = dateStr e) (appointments sampleView)) \<and>
   YearFromDay (currentMonth (changeMonth sampleView 1)) = 2026 \<and>
   MonthFromDay (currentMonth (changeMonth sampleView 1)) = 0 \<and>
   YearFromDay (currentMonth (changeMonth (changeMonth sampleView 1) (- 1))) = 2025 \<and>
   MonthFromDay (currentMonth (changeMonth (changeMonth sampleView 1) (- 1))) = 11 \<and>
   length (calendarDays february2024) = 4 + 29 \<and>
   length (calendarDays june2025) = 0 + 30 \<and>
   (\<exists>e. calendarDays june2025 ! 0 = Some e \<and> day e = 1)"
proof -
  note s = sample_months
  have dec: "YearFromDay (currentMonth sampleView) = 2025" "MonthFromDay (currentMonth sampleView) = 11"
    "(1000::int) \<le> 2025" "(2025::int) \<le> 9999"
    using s by simp_all
  have jan: "YearFromDay (currentMonth (changeMonth sampleView 1)) = 2026"
    "MonthFromDay (currentMonth (changeMonth sampleView 1)) = 0" "(1000::int) \<le> 2026" "(2026::int) \<le> 9999"
    using s by simp_all
  have feb: "YearFromDay (currentMonth february2024) = 2024" "MonthFromDay (currentMonth february2024) = 1"
    "(1000::int) \<le> 2024" "(2024::int) \<le> 9999"
    using s by simp_all
  have jun: "YearFromDay (currentMonth june2025) = 2025" "MonthFromDay (currentMonth june2025) = 5"
    "(1000::int) \<le> 2025" "(2025::int) \<le> 9999"
    using s by simp_all
  note D = calendarDays_month [OF dec]
  note J = calendarDays_month [OF jan]
  note F = calendarDays_month [OF feb]
  note U = calendarDays_month [OF jun]
  have w: "nat (WeekDay (MakeDay 2025 11 1)) = 1" "nat (monthLength 2025 11) = 31"
    "nat (WeekDay (MakeDay 2024 1 1)) = 4" "nat (monthLength 2024 1) = 29"
    "nat (WeekDay (MakeDay 2025 5 1)) = 0" "nat (monthLength 2025 5) = 30"
    using s by simp_all
  have d1: "length (calendarDays sampleView) = 1 + 31" using D w by simp
  have d2: "calendarDays sampleView ! 0 = None" using D w by simp
  have "(1::int) \<le> 15 \<and> 15 \<le> monthLength 2025 11" using s by simp
  then have d3: "\<exists>e. calendarDays sampleView ! (nat (WeekDay (MakeDay 2025 11 1)) + (nat 15 - 1)) = Some e \<and>
        day e = 15 \<and> parseIsoDate (dateStr e) = Some (2025, 11 + 1, 15) \<and>
        (hasAppointments e \<longleftrightarrow> (\<exists>apt \<in> set (appointments sampleView). date apt = dateStr e)) \<and>
        appointments_d e = filter (\<lambda>apt. date apt = dateStr e) (appointments sampleView)"
    using D by blast
  have d3': "\<exists>e. calendarDays sampleView ! 15 = Some e \<and> day e = 15 \<and>
        parseIsoDate (dateStr e) = Some (2025, 12, 15) \<and>
        (hasAppointments e \<longleftrightarrow> (\<exists>apt \<in> set (appointments sampleView). date apt = dateStr e)) \<and>
        appointments_d e = filter (\<lambda>apt. date apt = dateStr e) (appointments sampleView)"
    using d3 w by simp
  have d4: "YearFromDay (currentMonth (changeMonth sampleView 1)) = 2026"
    "MonthFromDay (currentMonth (changeMonth sampleView 1)) = 0"
    using D by simp_all
  have j: "YearFromDay (currentMonth (changeMonth (changeMonth sampleView 1) (- 1))) = 2025"
    "MonthFromDay (currentMonth (changeMonth (changeMonth sampleView 1) (- 1))) = 11"
    using J by simp_all
  have f: "length (calendarDays february2024) = 4 + 29" using F w by simp
  have u1: "length (calendarDays june2025) = 0 + 30" using U w by simp
  have "(1::int) \<le> 1 \<and> 1 \<le> monthLength 2025 5" using s by simp
  then have "\<exists>e. calendarDays june2025 ! (nat (WeekDay (MakeDay 2025 5 1)) + (nat 1 - 1)) = Some e \<and> day e = 1"
    using U by blast
  then have u2: "\<exists>e. calendarDays june2025 ! 0 = Some e \<and> day e = 1" using w by simp
  show ?thesis using dec(1,2) d1 d2 d3' d4 j f u1 u2 by blast
qed

text \<open>
  A step of one month keeps the day of the month and lets \<open>MakeDay\<close> carry it over:
  from the 31st of January 2025 it arrives in March.
\<close>

lemma changeMonth_from_31st:
  "MonthFromDay (setMonth (MakeDay 2025 0 31) (MonthFromDay (MakeDay 2025 0 31) + 1)) = 2"
  by code_simp

end
